theory Spec2Isabelle
  imports Complex_Main "HOL-Library.Word" "HOL-Library.Stream" "HOL-Library.AList"
begin

unbundle bit_operations_syntax

section \<open>Identity and directory: connect codes (hub, JavaScript)\<close>

subsection \<open>generateConnectCode\<close>

text \<open>
  \<^verbatim>\<open>
  function generateConnectCode() {
    const chars = "ABCDEFGHJKLMNPQRSTUVWXYZ23456789"; // Removed confusing chars
    let code = "";
    for (let i = 0; i < 6; i++) {
      code += chars.charAt(Math.floor(Math.random() * chars.length));
    }
    return code;
  }
  \<close>
  \<open>Math.random\<close> is the only effect. The model threads the sequence of its future
  results as a stream of reals; each call takes the head. The product with
  \<open>chars.length = 32\<close> is a multiplication by a power of two and therefore exact in
  binary floating point, so the real-number floor is the value the code computes.
\<close>

type_synonym rng = "real stream"

definition chars :: string where
  "chars = ''ABCDEFGHJKLMNPQRSTUVWXYZ23456789''"

text \<open>JavaScript's \<open>String.prototype.charAt\<close>: the empty string outside the range.\<close>

definition charAt :: "string \<Rightarrow> int \<Rightarrow> string" where
  "charAt s i = (if 0 \<le> i \<and> i < int (length s) then [s ! nat i] else [])"

text \<open>The loop body, run for the number of iterations that remain.\<close>

fun generateLoop :: "nat \<Rightarrow> rng \<Rightarrow> string \<Rightarrow> string \<times> rng" where
  "generateLoop 0 rnd code = (code, rnd)"
| "generateLoop (Suc n) rnd code =
     generateLoop n (stl rnd) (code @ charAt chars \<lfloor>shd rnd * real (length chars)\<rfloor>)"

definition generateConnectCode :: "rng \<Rightarrow> string \<times> rng" where
  "generateConnectCode rnd = generateLoop 6 rnd ''''"

text \<open>Character classes of the two regular expressions that are compared below.\<close>

definition inRange :: "char \<Rightarrow> char \<Rightarrow> char \<Rightarrow> bool" where
  "inRange lo hi c = ((of_char lo :: nat) \<le> of_char c \<and> (of_char c :: nat) \<le> of_char hi)"

text \<open>The class \<open>[A-HJ-KM-NP-Z2-9]\<close>, as the specification writes it.\<close>

definition specClass :: "char \<Rightarrow> bool" where
  "specClass c = (inRange CHR ''A'' CHR ''H'' c \<or> inRange CHR ''J'' CHR ''K'' c \<or>
     inRange CHR ''M'' CHR ''N'' c \<or> inRange CHR ''P'' CHR ''Z'' c \<or>
     inRange CHR ''2'' CHR ''9'' c)"

definition matchesSpecPattern :: "string \<Rightarrow> bool" where
  "matchesSpecPattern s = (length s = 6 \<and> list_all specClass s)"

text \<open>The class \<open>[A-HJ-NP-Z2-9]\<close>: the letters without I and O, the digits 2 to 9.\<close>

definition codeClass :: "char \<Rightarrow> bool" where
  "codeClass c = (inRange CHR ''A'' CHR ''H'' c \<or> inRange CHR ''J'' CHR ''N'' c \<or>
     inRange CHR ''P'' CHR ''Z'' c \<or> inRange CHR ''2'' CHR ''9'' c)"

definition matchesCodePattern :: "string \<Rightarrow> bool" where
  "matchesCodePattern s = (length s = 6 \<and> list_all codeClass s)"

subsection \<open>getOrCreateConnectCode\<close>

type_synonym userId = string

text \<open>
  Modelled from the spec: the persistent table \<open>connect_codes(user_id PRIMARY KEY,
  code UNIQUE)\<close> behind the Supabase client, which is not part of the sources. A row is
  a pair; \<open>selectCode\<close> is the \<open>select("code").eq("user_id", u).single()\<close> query and
  \<open>insertCode\<close> the \<open>insert\<close>, whose error (\<open>None\<close>) is a violation of either
  uniqueness constraint.
\<close>

type_synonym connect_codes = "(userId \<times> string) list"

definition selectCode :: "connect_codes \<Rightarrow> userId \<Rightarrow> string option" where
  "selectCode t u = map_of t u"

definition insertCode :: "connect_codes \<Rightarrow> userId \<Rightarrow> string \<Rightarrow> connect_codes option" where
  "insertCode t u c =
     (if u \<in> fst ` set t \<or> c \<in> snd ` set t then None else Some (t @ [(u, c)]))"

text \<open>
  \<^verbatim>\<open>
  let code;
  let attempts = 0;
  while (attempts < 10) {
    code = generateConnectCode();
    const { error } = await supabase.from("blip_connect_codes").insert({ user_id: userId, code });
    if (!error) break;
    attempts++;
  }
  return code;
  \<close>
  The variable \<open>code\<close> starts undefined (\<open>None\<close>). The result is the returned value
  together with the table and the random source as the call leaves them.
\<close>

function codeLoop ::
  "userId \<Rightarrow> nat \<Rightarrow> string option \<Rightarrow> rng \<Rightarrow> connect_codes
     \<Rightarrow> string option \<times> rng \<times> connect_codes" where
  "codeLoop u attempts code rnd t =
     (if attempts < 10 then
        (case generateConnectCode rnd of (c, rnd') \<Rightarrow>
           (case insertCode t u c of
              Some t' \<Rightarrow> (Some c, rnd', t')
            | None \<Rightarrow> codeLoop u (attempts + 1) (Some c) rnd' t))
      else (code, rnd, t))"
  by pat_completeness auto
termination
  by (relation "measure (\<lambda>(u, attempts, code, rnd, t). 10 - attempts)") auto

declare codeLoop.simps [simp del]

definition getOrCreateConnectCode ::
  "userId \<Rightarrow> rng \<Rightarrow> connect_codes \<Rightarrow> string option \<times> rng \<times> connect_codes" where
  "getOrCreateConnectCode u rnd t =
     (case selectCode t u of
        Some c \<Rightarrow> if c \<noteq> [] then (Some c, rnd, t) else codeLoop u 0 None rnd t
      | None \<Rightarrow> codeLoop u 0 None rnd t)"

section \<open>Signalling hub (JavaScript)\<close>

subsection \<open>Values, sockets and the hub's state\<close>

text \<open>
  A parsed message is a JavaScript object; the handlers only read its properties, use
  them as keys, compare them and copy them into the messages they send. A missing
  property reads as \<open>undefined\<close>. Property values are the scalar JSON values.
\<close>

datatype json = JUndefined | JNull | JBool bool | JNum int | JStr string

type_synonym jsobj = "(string \<times> json) list"

definition getProp :: "jsobj \<Rightarrow> string \<Rightarrow> json" where
  "getProp data k = (case map_of data k of Some v \<Rightarrow> v | None \<Rightarrow> JUndefined)"

text \<open>\<open>JSON.stringify\<close> leaves out the properties whose value is \<open>undefined\<close>.\<close>

definition stringify :: "jsobj \<Rightarrow> jsobj" where
  "stringify obj = filter (\<lambda>(k, v). v \<noteq> JUndefined) obj"

datatype readyState = CONNECTING | OPEN | CLOSING | CLOSED

type_synonym ws = nat

text \<open>The user record of the identity provider: \<open>user.id\<close> and \<open>user.email\<close>.\<close>

record user =
  uid :: userId
  email :: "string option"

record client =
  ws :: ws
  user :: user
  connectedAt :: nat

datatype sessionState = pending | accepted | connected

record session =
  initiatorId :: userId
  responderId :: json
  state :: sessionState
  createdAt :: nat

text \<open>
  \<open>fluxClients\<close> and \<open>rtcSessions\<close> are JavaScript \<open>Map\<close>s: association lists in
  insertion order, where \<open>set\<close> replaces the value of a present key in place and
  appends a new key (\<open>AList.update\<close>), \<open>get\<close> is \<open>map_of\<close> and \<open>delete\<close> is
  \<open>AList.delete\<close>. The state of every socket is part of the state.
\<close>

record hub =
  fluxClients :: "(userId \<times> client) list"
  rtcSessions :: "(json \<times> session) list"
  readyState :: "ws \<Rightarrow> readyState"

text \<open>What the hub does to the outside: a message written to a socket, a socket closed.\<close>

datatype event = Sent ws jsobj | Closed ws nat string

text \<open>
  \<^verbatim>\<open>
  function send(ws, message) {
    if (ws.readyState === WebSocket.OPEN) { ws.send(JSON.stringify(message)); }
  }
  \<close>
\<close>

definition send :: "hub \<Rightarrow> ws \<Rightarrow> jsobj \<Rightarrow> event list" where
  "send h w message = (if readyState h w = OPEN then [Sent w (stringify message)] else [])"

text \<open>\<open>fluxClients.get(k)\<close> for a key read from a message: only a string can be a key.\<close>

definition getClient :: "hub \<Rightarrow> json \<Rightarrow> client option" where
  "getClient h k = (case k of JStr s \<Rightarrow> map_of (fluxClients h) s | _ \<Rightarrow> None)"

text \<open>\<open>client.user.email?.split("@")[0] || "User"\<close>\<close>

definition senderName :: "client \<Rightarrow> string" where
  "senderName c =
     (case email (user c) of
        None \<Rightarrow> ''User''
      | Some e \<Rightarrow> (let n = takeWhile (\<lambda>x. x \<noteq> CHR ''@'') e in if n = [] then ''User'' else n))"

definition errorMessage :: "string \<Rightarrow> jsobj" where
  "errorMessage m = [(''type'', JStr ''error''), (''message'', JStr m)]"

text \<open>
  \<^verbatim>\<open>
  function notifyFriendsOfStatus(userId, isOnline) {
    fluxClients.forEach((client, clientId) => {
      send(client.ws, { type: isOnline ? "friend_online" : "friend_offline", friendId: userId });
    });
  }
  \<close>
\<close>

definition notifyFriendsOfStatus :: "hub \<Rightarrow> userId \<Rightarrow> bool \<Rightarrow> event list" where
  "notifyFriendsOfStatus h userId isOnline =
     concat (map (\<lambda>(clientId, c).
       send h (ws c) [(''type'', JStr (if isOnline then ''friend_online'' else ''friend_offline'')),
                      (''friendId'', JStr userId)]) (fluxClients h))"

subsection \<open>The cases of handleFluxMessage\<close>

text \<open>
  Each case takes the hub, the time (\<open>Date.now()\<close>), the sender's socket and client
  record and the parsed message \<open>data\<close>, and returns the hub and the events in order.
\<close>

definition case_ping :: "hub \<Rightarrow> ws \<Rightarrow> hub \<times> event list" where
  "case_ping h w = (h, send h w [(''type'', JStr ''pong'')])"

definition case_rtc_session_request ::
  "hub \<Rightarrow> nat \<Rightarrow> ws \<Rightarrow> client \<Rightarrow> jsobj \<Rightarrow> hub \<times> event list" where
  "case_rtc_session_request h now w c data =
     (case getClient h (getProp data ''peerId'') of
        None \<Rightarrow> (h, send h w (errorMessage ''Peer not connected''))
      | Some targetPeer \<Rightarrow>
          (h\<lparr>rtcSessions := AList.update (getProp data ''sessionId'')
                \<lparr>initiatorId = uid (user c), responderId = getProp data ''peerId'',
                 state = pending, createdAt = now\<rparr> (rtcSessions h)\<rparr>,
           send h (ws targetPeer)
             [(''type'', JStr ''rtc_session_request''),
              (''senderId'', JStr (uid (user c))),
              (''senderName'', JStr (senderName c)),
              (''sessionId'', getProp data ''sessionId'')]))"

definition case_rtc_session_accept :: "hub \<Rightarrow> ws \<Rightarrow> client \<Rightarrow> jsobj \<Rightarrow> hub \<times> event list" where
  "case_rtc_session_accept h w c data =
     (case map_of (rtcSessions h) (getProp data ''sessionId'') of
        None \<Rightarrow> (h, send h w (errorMessage ''Session not found''))
      | Some acceptSession \<Rightarrow>
          (h\<lparr>rtcSessions := AList.update (getProp data ''sessionId'')
                (acceptSession\<lparr>state := accepted\<rparr>) (rtcSessions h)\<rparr>,
           (case map_of (fluxClients h) (initiatorId acceptSession) of
              None \<Rightarrow> []
            | Some initiator \<Rightarrow>
                send h (ws initiator)
                  [(''type'', JStr ''rtc_session_accept''),
                   (''sessionId'', getProp data ''sessionId''),
                   (''senderId'', JStr (uid (user c)))])))"

text \<open>\<open>data.reason || "Rejected by peer"\<close>: the falsy values give the default.\<close>

definition orDefault :: "json \<Rightarrow> json \<Rightarrow> json" where
  "orDefault v d =
     (if v = JUndefined \<or> v = JNull \<or> v = JBool False \<or> v = JNum 0 \<or> v = JStr '''' then d
      else v)"

definition case_rtc_session_reject :: "hub \<Rightarrow> ws \<Rightarrow> client \<Rightarrow> jsobj \<Rightarrow> hub \<times> event list" where
  "case_rtc_session_reject h w c data =
     (case map_of (rtcSessions h) (getProp data ''sessionId'') of
        None \<Rightarrow> (h, [])
      | Some rejectSession \<Rightarrow>
          (h\<lparr>rtcSessions := AList.delete (getProp data ''sessionId'') (rtcSessions h)\<rparr>,
           (case map_of (fluxClients h) (initiatorId rejectSession) of
              None \<Rightarrow> []
            | Some rejectInitiator \<Rightarrow>
                send h (ws rejectInitiator)
                  [(''type'', JStr ''rtc_session_reject''),
                   (''sessionId'', getProp data ''sessionId''),
                   (''reason'', orDefault (getProp data ''reason'') (JStr ''Rejected by peer''))])))"

text \<open>
  \<open>readySession.initiatorId === client.user.id ? readySession.responderId :
  readySession.initiatorId\<close>, then \<open>fluxClients.get\<close> of it.
\<close>

definition otherPeer :: "hub \<Rightarrow> session \<Rightarrow> client \<Rightarrow> client option" where
  "otherPeer h s c =
     (if initiatorId s = uid (user c) then getClient h (responderId s)
      else map_of (fluxClients h) (initiatorId s))"

definition case_rtc_session_ready :: "hub \<Rightarrow> ws \<Rightarrow> client \<Rightarrow> jsobj \<Rightarrow> hub \<times> event list" where
  "case_rtc_session_ready h w c data =
     (case map_of (rtcSessions h) (getProp data ''sessionId'') of
        None \<Rightarrow> (h, [])
      | Some readySession \<Rightarrow>
          (h\<lparr>rtcSessions := AList.update (getProp data ''sessionId'')
                (readySession\<lparr>state := connected\<rparr>) (rtcSessions h)\<rparr>,
           (case otherPeer h readySession c of
              None \<Rightarrow> []
            | Some other \<Rightarrow>
                send h (ws other)
                  [(''type'', JStr ''rtc_session_ready''),
                   (''sessionId'', getProp data ''sessionId''),
                   (''senderId'', JStr (uid (user c)))])))"

definition case_rtc_session_close :: "hub \<Rightarrow> ws \<Rightarrow> client \<Rightarrow> jsobj \<Rightarrow> hub \<times> event list" where
  "case_rtc_session_close h w c data =
     (case map_of (rtcSessions h) (getProp data ''sessionId'') of
        None \<Rightarrow> (h, [])
      | Some closeSession \<Rightarrow>
          (h\<lparr>rtcSessions := AList.delete (getProp data ''sessionId'') (rtcSessions h)\<rparr>,
           (case otherPeer h closeSession c of
              None \<Rightarrow> []
            | Some closePeer \<Rightarrow>
                send h (ws closePeer)
                  [(''type'', JStr ''rtc_session_close''),
                   (''sessionId'', getProp data ''sessionId'')])))"

text \<open>The three relays of opaque payloads to \<open>data.peerId\<close>.\<close>

definition relay :: "hub \<Rightarrow> json \<Rightarrow> jsobj \<Rightarrow> hub \<times> event list" where
  "relay h peerId message =
     (case getClient h peerId of None \<Rightarrow> (h, []) | Some peer \<Rightarrow> (h, send h (ws peer) message))"

definition case_rtc_offer :: "hub \<Rightarrow> ws \<Rightarrow> client \<Rightarrow> jsobj \<Rightarrow> hub \<times> event list" where
  "case_rtc_offer h w c data =
     relay h (getProp data ''peerId'')
       [(''type'', JStr ''rtc_offer''),
        (''senderId'', JStr (uid (user c))),
        (''senderName'', JStr (senderName c)),
        (''sessionId'', getProp data ''sessionId''),
        (''sdp'', getProp data ''sdp'')]"

definition case_rtc_answer :: "hub \<Rightarrow> ws \<Rightarrow> client \<Rightarrow> jsobj \<Rightarrow> hub \<times> event list" where
  "case_rtc_answer h w c data =
     relay h (getProp data ''peerId'')
       [(''type'', JStr ''rtc_answer''),
        (''senderId'', JStr (uid (user c))),
        (''sessionId'', getProp data ''sessionId''),
        (''sdp'', getProp data ''sdp'')]"

definition case_rtc_ice_candidate :: "hub \<Rightarrow> ws \<Rightarrow> client \<Rightarrow> jsobj \<Rightarrow> hub \<times> event list" where
  "case_rtc_ice_candidate h w c data =
     relay h (getProp data ''peerId'')
       [(''type'', JStr ''rtc_ice_candidate''),
        (''senderId'', JStr (uid (user c))),
        (''sessionId'', getProp data ''sessionId''),
        (''candidate'', getProp data ''candidate''),
        (''sdpMid'', getProp data ''sdpMid''),
        (''sdpMLineIndex'', getProp data ''sdpMLineIndex'')]"

subsection \<open>handleFluxMessage\<close>

text \<open>
  The result of \<open>JSON.parse(message)\<close>: a syntax error, a value that is not an object,
  or an object. Reading \<open>data.type\<close> of \<open>null\<close> throws, and the \<open>catch\<close> block
  answers \<open>Internal error\<close> as it does for a syntax error; any other non-object has no
  \<open>type\<close> and falls to \<open>default\<close>, which only logs.

  The cases \<open>get_connect_code\<close>, \<open>get_friends\<close> and \<open>add_friend\<close> work on the
  directory database; \<open>handleFluxMessage\<close> returns \<open>None\<close> for them: they are outside
  this model of the session table.
\<close>

datatype parsed = SyntaxError | Prim json | Obj jsobj

definition handleFluxMessage ::
  "hub \<Rightarrow> nat \<Rightarrow> ws \<Rightarrow> client \<Rightarrow> parsed \<Rightarrow> (hub \<times> event list) option" where
  "handleFluxMessage h now w c message =
     (case message of
        SyntaxError \<Rightarrow> Some (h, send h w (errorMessage ''Internal error''))
      | Prim v \<Rightarrow> if v = JNull then Some (h, send h w (errorMessage ''Internal error''))
                  else Some (h, [])
      | Obj data \<Rightarrow>
          (let t = getProp data ''type'' in
           if t = JStr ''ping'' then Some (case_ping h w)
           else if t = JStr ''get_connect_code'' \<or> t = JStr ''get_friends''
                   \<or> t = JStr ''add_friend'' then None
           else if t = JStr ''rtc_session_request'' then Some (case_rtc_session_request h now w c data)
           else if t = JStr ''rtc_session_accept'' then Some (case_rtc_session_accept h w c data)
           else if t = JStr ''rtc_session_reject'' then Some (case_rtc_session_reject h w c data)
           else if t = JStr ''rtc_offer'' then Some (case_rtc_offer h w c data)
           else if t = JStr ''rtc_answer'' then Some (case_rtc_answer h w c data)
           else if t = JStr ''rtc_ice_candidate'' then Some (case_rtc_ice_candidate h w c data)
           else if t = JStr ''rtc_session_ready'' then Some (case_rtc_session_ready h w c data)
           else if t = JStr ''rtc_session_close'' then Some (case_rtc_session_close h w c data)
           else Some (h, [])))"

subsection \<open>Connection and close\<close>

text \<open>\<open>ws.close(code, reason)\<close> on an open socket starts the closing handshake.\<close>

definition wsClose :: "hub \<Rightarrow> ws \<Rightarrow> nat \<Rightarrow> string \<Rightarrow> hub \<times> event list" where
  "wsClose h w code reason =
     (if readyState h w = OPEN
      then (h\<lparr>readyState := (readyState h)(w := CLOSING)\<rparr>, [Closed w code reason])
      else (h, []))"

text \<open>
  \<^verbatim>\<open>
  wss.on("connection", async (ws, req) => {
      const token = url.searchParams.get("token");
      if (!token) { ws.close(4001, "Missing token"); return; }
      const user = await verifyToken(token);
      if (!user) { ws.close(4001, "Invalid token"); return; }
      const client = { ws, user, connectedAt: Date.now() };
      fluxClients.set(user.id, client);
      send(ws, { type: "connected", userId: user.id, email: user.email });
      notifyFriendsOfStatus(user.id, true);
      ...
  \<close>
  \<open>verifyToken\<close> asks the identity provider; it is a parameter. The token is \<open>None\<close>
  when the query has no \<open>token\<close> parameter.
\<close>

definition onConnection ::
  "(string \<Rightarrow> user option) \<Rightarrow> nat \<Rightarrow> hub \<Rightarrow> ws \<Rightarrow> string option \<Rightarrow> hub \<times> event list" where
  "onConnection verifyToken now h w token =
     (case token of
        None \<Rightarrow> wsClose h w 4001 ''Missing token''
      | Some t \<Rightarrow>
          if t = [] then wsClose h w 4001 ''Missing token''
          else (case verifyToken t of
            None \<Rightarrow> wsClose h w 4001 ''Invalid token''
          | Some u \<Rightarrow>
              (let c = \<lparr>ws = w, user = u, connectedAt = now\<rparr>;
                   h' = h\<lparr>fluxClients := AList.update (uid u) c (fluxClients h)\<rparr>
               in (h', send h' w [(''type'', JStr ''connected''),
                                  (''userId'', JStr (uid u)),
                                  (''email'', (case email u of None \<Rightarrow> JUndefined | Some e \<Rightarrow> JStr e))]
                       @ notifyFriendsOfStatus h' (uid u) True))))"

text \<open>
  \<^verbatim>\<open>
  ws.on("close", () => {
    fluxClients.delete(user.id);
    notifyFriendsOfStatus(user.id, false);
    rtcSessions.forEach((session, sessionId) => {
      if (session.initiatorId === user.id || session.responderId === user.id) {
        rtcSessions.delete(sessionId);
      }
    });
  });
  \<close>
  The event fires when socket \<open>w\<close> of user \<open>u\<close> has closed. Deleting the visited entry
  inside \<open>forEach\<close> does not disturb the iteration: the loop is a filter.
\<close>

definition onClose :: "hub \<Rightarrow> ws \<Rightarrow> user \<Rightarrow> hub \<times> event list" where
  "onClose h w u =
     (let h1 = h\<lparr>readyState := (readyState h)(w := CLOSED)\<rparr>;
          h2 = h1\<lparr>fluxClients := AList.delete (uid u) (fluxClients h1)\<rparr>;
          evs = notifyFriendsOfStatus h2 (uid u) False;
          h3 = h2\<lparr>rtcSessions :=
                 filter (\<lambda>(sessionId, s). \<not> (initiatorId s = uid u \<or> responderId s = JStr (uid u)))
                   (rtcSessions h2)\<rparr>
      in (h3, evs))"

text \<open>Observations on events.\<close>

fun isClose :: "event \<Rightarrow> bool" where
  "isClose (Closed w code reason) = True"
| "isClose (Sent w m) = False"

fun messageType :: "event \<Rightarrow> json" where
  "messageType (Sent w m) = getProp m ''type''"
| "messageType (Closed w code reason) = JUndefined"

subsection \<open>A concrete hub, used to evaluate the handlers\<close>

definition alice :: user where
  "alice = \<lparr>uid = ''A'', email = Some ''alice@example.com''\<rparr>"

definition bob :: user where
  "bob = \<lparr>uid = ''B'', email = Some ''bob@example.com''\<rparr>"

definition aliceClient :: client where
  "aliceClient = \<lparr>ws = 1, user = alice, connectedAt = 0\<rparr>"

definition bobClient :: client where
  "bobClient = \<lparr>ws = 2, user = bob, connectedAt = 0\<rparr>"

text \<open>Alice is connected on socket 1, Bob on socket 2; socket 3 is open and unregistered.\<close>

definition sockets0 :: "ws \<Rightarrow> readyState" where
  "sockets0 w = (if w = 1 \<or> w = 2 \<or> w = 3 then OPEN else CLOSED)"

definition hub0 :: hub where
  "hub0 = \<lparr>fluxClients = [(''A'', aliceClient), (''B'', bobClient)], rtcSessions = [],
           readyState = sockets0\<rparr>"

definition sessionS1 :: "sessionState \<Rightarrow> session" where
  "sessionS1 st = \<lparr>initiatorId = ''A'', responderId = JStr ''B'', state = st, createdAt = 7\<rparr>"

definition hubS1 :: "sessionState \<Rightarrow> hub" where
  "hubS1 st = hub0\<lparr>rtcSessions := [(JStr ''S1'', sessionS1 st)]\<rparr>"

definition requestS1 :: jsobj where
  "requestS1 = [(''type'', JStr ''rtc_session_request''), (''peerId'', JStr ''B''),
     (''sessionId'', JStr ''S1''), (''fileName'', JStr ''r.bin''), (''fileSize'', JNum 131072),
     (''fileType'', JStr ''bin'')]"

definition readyS1 :: jsobj where
  "readyS1 = [(''type'', JStr ''rtc_session_ready''), (''sessionId'', JStr ''S1'')]"

definition verifyToken0 :: "string \<Rightarrow> user option" where
  "verifyToken0 t = (if t = ''tokenA'' then Some alice else if t = ''tokenB'' then Some bob else None)"

section \<open>Transfer protocol (DataChannelManager, Swift)\<close>

subsection \<open>SHA-256\<close>

text \<open>
  \<open>SHA256.hash(data:)\<close> comes from CryptoKit, outside the sources. It is the function
  of FIPS 180-4, written out here on 32-bit words so that the digest of a concrete
  payload can be computed: padding, the message schedule, 64 rounds per block.
\<close>

type_synonym byte = "8 word"

definition rotr :: "nat \<Rightarrow> 32 word \<Rightarrow> 32 word" where
  "rotr n x = drop_bit n x OR push_bit (32 - n) x"

definition sha_ch :: "32 word \<Rightarrow> 32 word \<Rightarrow> 32 word \<Rightarrow> 32 word" where
  "sha_ch x y z = (x AND y) XOR (NOT x AND z)"

definition sha_maj :: "32 word \<Rightarrow> 32 word \<Rightarrow> 32 word \<Rightarrow> 32 word" where
  "sha_maj x y z = (x AND y) XOR (x AND z) XOR (y AND z)"

definition bsig0 :: "32 word \<Rightarrow> 32 word" where
  "bsig0 x = rotr 2 x XOR rotr 13 x XOR rotr 22 x"

definition bsig1 :: "32 word \<Rightarrow> 32 word" where
  "bsig1 x = rotr 6 x XOR rotr 11 x XOR rotr 25 x"

definition ssig0 :: "32 word \<Rightarrow> 32 word" where
  "ssig0 x = rotr 7 x XOR rotr 18 x XOR drop_bit 3 x"

definition ssig1 :: "32 word \<Rightarrow> 32 word" where
  "ssig1 x = rotr 17 x XOR rotr 19 x XOR drop_bit 10 x"

text \<open>The round constants and the initial hash value, in decimal.\<close>

definition sha_constants :: "32 word list" where
  "sha_constants = [
  1116352408, 1899447441, 3049323471, 3921009573, 961987163, 1508970993, 2453635748, 2870763221,
  3624381080, 310598401, 607225278, 1426881987, 1925078388, 2162078206, 2614888103, 3248222580,
  3835390401, 4022224774, 264347078, 604807628, 770255983, 1249150122, 1555081692, 1996064986,
  2554220882, 2821834349, 2952996808, 3210313671, 3336571891, 3584528711, 113926993, 338241895,
  666307205, 773529912, 1294757372, 1396182291, 1695183700, 1986661051, 2177026350, 2456956037,
  2730485921, 2820302411, 3259730800, 3345764771, 3516065817, 3600352804, 4094571909, 275423344,
  430227734, 506948616, 659060556, 883997877, 958139571, 1322822218, 1537002063, 1747873779,
  1955562222, 2024104815, 2227730452, 2361852424, 2428436474, 2756734187, 3204031479, 3329325298]"

definition sha_initial :: "32 word list" where
  "sha_initial = [1779033703, 3144134277, 1013904242, 2773480762,
                  1359893119, 2600822924, 528734635, 1541459225]"

text \<open>The message schedule, newest word first: \<open>n\<close> more words from the ones at hand.\<close>

fun sha_schedule :: "nat \<Rightarrow> 32 word list \<Rightarrow> 32 word list" where
  "sha_schedule 0 sched = sched"
| "sha_schedule (Suc n) sched =
     sha_schedule n ((ssig1 (sched ! 1) + sched ! 6 + ssig0 (sched ! 14) + sched ! 15) # sched)"

fun sha_rounds :: "32 word list \<Rightarrow> 32 word list \<Rightarrow> 32 word list \<Rightarrow> 32 word list" where
  "sha_rounds [] sched s = s"
| "sha_rounds (k # ks) [] s = s"
| "sha_rounds (k # ks) (x # sched) [a, b, c, d, e, f, g, h] =
     (let t1 = h + bsig1 e + sha_ch e f g + k + x; t2 = bsig0 a + sha_maj a b c
      in sha_rounds ks sched [t1 + t2, a, b, c, d + t1, e, f, g])"
| "sha_rounds (k # ks) (x # sched) s = s"

fun sha_words :: "byte list \<Rightarrow> 32 word list" where
  "sha_words (a # b # c # d # r) =
     (push_bit 24 (ucast a) OR push_bit 16 (ucast b) OR push_bit 8 (ucast c) OR ucast d)
     # sha_words r"
| "sha_words r = []"

definition sha_compress :: "32 word list \<Rightarrow> byte list \<Rightarrow> 32 word list" where
  "sha_compress s block =
     map2 (+) s (sha_rounds sha_constants (rev (sha_schedule 48 (rev (sha_words block)))) s)"

fun sha_blocks :: "nat \<Rightarrow> 32 word list \<Rightarrow> byte list \<Rightarrow> 32 word list" where
  "sha_blocks 0 s msg = s"
| "sha_blocks (Suc n) s msg = sha_blocks n (sha_compress s (take 64 msg)) (drop 64 msg)"

definition sha_length_bytes :: "64 word \<Rightarrow> byte list" where
  "sha_length_bytes n = map (\<lambda>i. ucast (drop_bit (8 * i) n)) [7, 6, 5, 4, 3, 2, 1, 0]"

definition sha_pad :: "byte list \<Rightarrow> byte list" where
  "sha_pad msg = msg @ [0x80] @ replicate ((119 - length msg mod 64) mod 64) 0
     @ sha_length_bytes (of_nat (8 * length msg))"

definition sha_word_bytes :: "32 word \<Rightarrow> byte list" where
  "sha_word_bytes x = [ucast (drop_bit 24 x), ucast (drop_bit 16 x), ucast (drop_bit 8 x), ucast x]"

definition SHA256 :: "byte list \<Rightarrow> byte list" where
  "SHA256 msg =
     concat (map sha_word_bytes (sha_blocks (length (sha_pad msg) div 64) sha_initial (sha_pad msg)))"

subsection \<open>Bytes, strings and configuration\<close>

text \<open>
  \<open>Data\<close> is a list of bytes. A Swift \<open>String\<close> is modelled by the list of its UTF-8
  code units, one \<open>char\<close> each: \<open>utf8\<close> is \<open>data(using: .utf8)\<close>, and
  \<open>decodeUTF8\<close> is \<open>String(data:encoding: .utf8)\<close>, which is \<open>nil\<close> on a byte
  sequence that is not well-formed UTF-8 (Unicode, table 3-7).
\<close>

type_synonym Data = "byte list"

definition utf8 :: "string \<Rightarrow> Data" where
  "utf8 s = map (\<lambda>c. of_nat (of_char c)) s"

definition cont :: "byte \<Rightarrow> bool" where
  "cont b = (0x80 \<le> b \<and> b \<le> 0xBF)"

fun wellFormedUTF8 :: "Data \<Rightarrow> bool" where
  "wellFormedUTF8 [] = True"
| "wellFormedUTF8 [a] = (a \<le> 0x7F)"
| "wellFormedUTF8 [a, b] =
     (if a \<le> 0x7F then wellFormedUTF8 [b] else 0xC2 \<le> a \<and> a \<le> 0xDF \<and> cont b)"
| "wellFormedUTF8 [a, b, c] =
     (if a \<le> 0x7F then wellFormedUTF8 [b, c]
      else if 0xC2 \<le> a \<and> a \<le> 0xDF then cont b \<and> wellFormedUTF8 [c]
      else (a = 0xE0 \<and> 0xA0 \<le> b \<and> b \<le> 0xBF
            \<or> (0xE1 \<le> a \<and> a \<le> 0xEC \<or> 0xEE \<le> a \<and> a \<le> 0xEF) \<and> cont b
            \<or> a = 0xED \<and> 0x80 \<le> b \<and> b \<le> 0x9F) \<and> cont c)"
| "wellFormedUTF8 (a # b # c # d # r) =
     (if a \<le> 0x7F then wellFormedUTF8 (b # c # d # r)
      else if 0xC2 \<le> a \<and> a \<le> 0xDF then cont b \<and> wellFormedUTF8 (c # d # r)
      else if 0xE0 \<le> a \<and> a \<le> 0xEF then
        (a = 0xE0 \<and> 0xA0 \<le> b \<and> b \<le> 0xBF
         \<or> (0xE1 \<le> a \<and> a \<le> 0xEC \<or> 0xEE \<le> a \<and> a \<le> 0xEF) \<and> cont b
         \<or> a = 0xED \<and> 0x80 \<le> b \<and> b \<le> 0x9F) \<and> cont c \<and> wellFormedUTF8 (d # r)
      else (a = 0xF0 \<and> 0x90 \<le> b \<and> b \<le> 0xBF
            \<or> 0xF1 \<le> a \<and> a \<le> 0xF3 \<and> cont b
            \<or> a = 0xF4 \<and> 0x80 \<le> b \<and> b \<le> 0x8F) \<and> cont c \<and> cont d \<and> wellFormedUTF8 r)"

definition decodeUTF8 :: "Data \<Rightarrow> string option" where
  "decodeUTF8 d = (if wellFormedUTF8 d then Some (map (\<lambda>b. char_of (unat b)) d) else None)"

text \<open>\<open>Data.subdata(in: start..<end)\<close>, for \<open>start \<le> end \<le> count\<close>.\<close>

definition subdata :: "Data \<Rightarrow> nat \<Rightarrow> nat \<Rightarrow> Data" where
  "subdata d start end = take (end - start) (drop start d)"

text \<open>\<open>WebRTCConfig.chunkSize\<close> and \<open>WebRTCConfig.parallelChannels\<close>.\<close>

definition chunkSize :: nat where
  "chunkSize = 64 * 1024"

definition parallelChannels :: nat where
  "parallelChannels = 4"

text \<open>\<open>String(format: "%02x", b)\<close> for every byte of a digest, joined.\<close>

definition hexDigit :: "nat \<Rightarrow> char" where
  "hexDigit n = ''0123456789abcdef'' ! (n mod 16)"

definition hexString :: "Data \<Rightarrow> string" where
  "hexString d = concat (map (\<lambda>b. [hexDigit (unat b div 16), hexDigit (unat b mod 16)]) d)"

text \<open>The decimal digits of \<open>"\(i)"\<close>.\<close>

fun showNat :: "nat \<Rightarrow> string" where
  "showNat n =
     (if n < 10 then [''0123456789'' ! n] else showNat (n div 10) @ [''0123456789'' ! (n mod 10)])"

declare showNat.simps [simp del]

subsection \<open>Messages and state\<close>

datatype TransferMessageType =
  fileMetadata | fileChunk | fileComplete | transferAck | transferSuccess | transferFailed
  | transferCancel

fun rawValue :: "TransferMessageType \<Rightarrow> byte" where
  "rawValue fileMetadata = 1"
| "rawValue fileChunk = 2"
| "rawValue fileComplete = 3"
| "rawValue transferAck = 4"
| "rawValue transferSuccess = 5"
| "rawValue transferFailed = 6"
| "rawValue transferCancel = 7"

definition fromRawValue :: "byte \<Rightarrow> TransferMessageType option" where
  "fromRawValue b =
     (if b = 1 then Some fileMetadata else if b = 2 then Some fileChunk
      else if b = 3 then Some fileComplete else if b = 4 then Some transferAck
      else if b = 5 then Some transferSuccess else if b = 6 then Some transferFailed
      else if b = 7 then Some transferCancel else None)"

text \<open>
  \<open>fileSize\<close> (\<open>Int64\<close>) and \<open>totalChunks\<close> (\<open>Int\<close>) are signed: a receiver
  decodes them from the peer's JSON.
\<close>

record FileMetadata =
  transferId :: string
  fileName :: string
  fileSize :: int
  fileType :: string
  totalChunks :: int
  checksum :: string

text \<open>
  The fields of \<open>DataChannelManager\<close>. The two start times are left out: they are set
  and cleared together with the metadata and only feed the transfer speed. Chunk
  indices are \<open>Int(index)\<close> of a \<open>UInt32\<close>, never negative.
\<close>

record manager =
  sendingTransferId :: "string option"
  sendingFileData :: "Data option"
  sendingMetadata :: "FileMetadata option"
  sendingChunkIndex :: nat
  sendingPaused :: bool
  receivingTransferId :: "string option"
  receivingMetadata :: "FileMetadata option"
  receivingChunks :: "nat \<rightharpoonup> Data"
  receivingBytesReceived :: int

text \<open>
  What a call does besides changing the fields: a frame handed to the transport
  (\<open>webRTCService?.sendData(message, onChannel:)\<close>), the file written in the temporary
  directory, the delegate callbacks, the next batch scheduled on the main queue, and a
  runtime trap, after which nothing else happens. A progress report carries the
  transfer, the bytes transferred and the total.
\<close>

datatype effect =
  SendData nat Data
  | WriteTo string Data
  | DidStartReceiving FileMetadata
  | DidUpdateProgress string int int
  | DidCompleteTransfer string string
  | DidFailTransfer string string
  | DidCancelTransfer string
  | AsyncSendNextChunks
  | Trap

definition cleanup :: "manager \<Rightarrow> manager" where
  "cleanup m = m\<lparr>sendingTransferId := None, sendingFileData := None, sendingMetadata := None,
     sendingChunkIndex := 0, sendingPaused := False, receivingTransferId := None,
     receivingMetadata := None, receivingChunks := Map.empty, receivingBytesReceived := 0\<rparr>"

subsection \<open>Control frames\<close>

definition controlFrame :: "TransferMessageType \<Rightarrow> string \<Rightarrow> effect list" where
  "controlFrame t s = [SendData 0 (rawValue t # utf8 s)]"

definition sendAck :: "string \<Rightarrow> effect list" where
  "sendAck tid = controlFrame transferAck tid"

definition sendSuccessMessage :: "string \<Rightarrow> effect list" where
  "sendSuccessMessage tid = controlFrame transferSuccess tid"

definition sendFailedMessage :: "string \<Rightarrow> string \<Rightarrow> effect list" where
  "sendFailedMessage tid reason = controlFrame transferFailed reason"

definition sendCancelMessage :: "string \<Rightarrow> effect list" where
  "sendCancelMessage tid = controlFrame transferCancel tid"

definition sendCompleteMessage :: "manager \<Rightarrow> effect list" where
  "sendCompleteMessage m =
     (case sendingMetadata m of None \<Rightarrow> [] | Some metadata \<Rightarrow> controlFrame fileComplete (checksum metadata))"

subsection \<open>Sending\<close>

text \<open>
  \<^verbatim>\<open>
  let checksum = SHA256.hash(data: data).compactMap { String(format: "%02x", $0) }.joined()
  let totalChunks = Int(ceil(Double(data.count) / Double(WebRTCConfig.chunkSize)))
  \<close>
  The chunk size is a power of two, so the floating-point quotient is exact and its
  ceiling is the ceiling of the real quotient.
\<close>

definition metadataFor :: "string \<Rightarrow> string \<Rightarrow> string \<Rightarrow> Data \<Rightarrow> FileMetadata" where
  "metadataFor tid name ext data =
     \<lparr>transferId = tid, fileName = name, fileSize = int (length data), fileType = ext,
      totalChunks = \<lceil>real (length data) / real chunkSize\<rceil>,
      checksum = hexString (SHA256 data)\<rparr>"

definition updateSendProgress :: "manager \<Rightarrow> effect list" where
  "updateSendProgress m =
     (case sendingMetadata m of
        None \<Rightarrow> []
      | Some metadata \<Rightarrow>
          [DidUpdateProgress (transferId metadata)
             (min (int (sendingChunkIndex m * chunkSize)) (fileSize metadata)) (fileSize metadata)])"

text \<open>
  \<open>sendFile\<close>: \<open>contents\<close> is the result of reading the file (\<open>None\<close> when it cannot
  be read, which throws), \<open>jsonEncode\<close> is \<open>JSONEncoder().encode\<close>, used by
  \<open>sendMetadata\<close>.
\<close>

definition sendMetadata :: "(FileMetadata \<Rightarrow> Data option) \<Rightarrow> manager \<Rightarrow> FileMetadata \<Rightarrow> effect list" where
  "sendMetadata jsonEncode m metadata =
     (case jsonEncode metadata of
        None \<Rightarrow> []
      | Some jsonData \<Rightarrow> SendData 0 (rawValue fileMetadata # jsonData) # updateSendProgress m)"

definition sendFile ::
  "(FileMetadata \<Rightarrow> Data option) \<Rightarrow> manager \<Rightarrow> string \<Rightarrow> string \<Rightarrow> string \<Rightarrow> Data option
     \<Rightarrow> string + manager \<times> effect list" where
  "sendFile jsonEncode m tid name ext contents =
     (case contents of
        None \<Rightarrow> Inl ''Failed to read file''
      | Some data \<Rightarrow>
          (let metadata = metadataFor tid name ext data;
               m' = m\<lparr>sendingTransferId := Some tid, sendingFileData := Some data,
                      sendingMetadata := Some metadata, sendingChunkIndex := 0,
                      sendingPaused := False\<rparr>
           in Inr (m', sendMetadata jsonEncode m' metadata)))"

text \<open>
  \<^verbatim>\<open>
  private func sendChunk(index: Int, data: Data) {
      var message = Data()
      message.append(TransferMessageType.fileChunk.rawValue)
      var indexBigEndian = UInt32(index).bigEndian
      message.append(Data(bytes: &indexBigEndian, count: 4))
      message.append(data)
      _ = webRTCService?.sendDataRoundRobin(message, index: index)
  }
  \<close>
  \<open>UInt32(index)\<close> traps when the index does not fit. \<open>sendDataRoundRobin\<close> uses
  channel \<open>index % parallelChannels\<close>.
\<close>

definition bigEndian4 :: "nat \<Rightarrow> Data" where
  "bigEndian4 n = [of_nat (n div 2 ^ 24), of_nat (n div 2 ^ 16), of_nat (n div 2 ^ 8), of_nat n]"

definition chunkFrame :: "nat \<Rightarrow> Data \<Rightarrow> Data" where
  "chunkFrame index d = rawValue fileChunk # bigEndian4 index @ d"

definition sendChunk :: "nat \<Rightarrow> Data \<Rightarrow> effect" where
  "sendChunk index d =
     (if index < 2 ^ 32 then SendData (index mod parallelChannels) (chunkFrame index d) else Trap)"

text \<open>
  The body of \<open>for _ in 0..<chunksToSend\<close>, for the iterations that remain. A range
  whose upper bound is below its lower bound traps.
\<close>

fun chunkLoop :: "nat \<Rightarrow> Data \<Rightarrow> FileMetadata \<Rightarrow> manager \<Rightarrow> manager \<times> effect list" where
  "chunkLoop 0 fileData metadata m = (m, [])"
| "chunkLoop (Suc k) fileData metadata m =
     (if \<not> int (sendingChunkIndex m) < totalChunks metadata then (m, [])
      else
        (let start = sendingChunkIndex m * chunkSize;
             end = min (start + chunkSize) (length fileData)
         in if end < start then (m, [Trap])
            else
              (case sendChunk (sendingChunkIndex m) (subdata fileData start end) of
                 Trap \<Rightarrow> (m, [Trap])
               | e \<Rightarrow>
                   (case chunkLoop k fileData metadata
                           (m\<lparr>sendingChunkIndex := sendingChunkIndex m + 1\<rparr>) of
                      (m', es) \<Rightarrow> (m', e # es)))))"

text \<open>
  \<open>sendNextChunks\<close>; \<open>pause\<close> is the answer of
  \<open>webRTCService?.shouldPauseSending() == true\<close> at this call.
\<close>

definition sendNextChunks :: "manager \<Rightarrow> bool \<Rightarrow> manager \<times> effect list" where
  "sendNextChunks m pause =
     (case sendingFileData m of
        None \<Rightarrow> (m, [])
      | Some fileData \<Rightarrow>
     (case sendingMetadata m of
        None \<Rightarrow> (m, [])
      | Some metadata \<Rightarrow>
          if sendingPaused m then (m, [])
          else if pause then (m\<lparr>sendingPaused := True\<rparr>, [])
          else
            (let chunksToSend = min (int parallelChannels)
                                    (totalChunks metadata - int (sendingChunkIndex m))
             in if chunksToSend < 0 then (m, [Trap])
                else
                  (case chunkLoop (nat chunksToSend) fileData metadata m of
                     (m', es) \<Rightarrow>
                       if Trap \<in> set es then (m', es)
                       else (m', es @ updateSendProgress m'
                                 @ (if int (sendingChunkIndex m') \<ge> totalChunks metadata
                                    then sendCompleteMessage m'
                                    else [AsyncSendNextChunks]))))))"

definition handleTransferAck :: "manager \<Rightarrow> bool \<Rightarrow> manager \<times> effect list" where
  "handleTransferAck m pause = sendNextChunks m pause"

definition resumeSending :: "manager \<Rightarrow> bool \<Rightarrow> manager \<times> effect list" where
  "resumeSending m pause =
     (if \<not> sendingPaused m then (m, []) else sendNextChunks (m\<lparr>sendingPaused := False\<rparr>) pause)"

subsection \<open>Receiving\<close>

definition updateReceiveProgress :: "manager \<Rightarrow> effect list" where
  "updateReceiveProgress m =
     (case receivingMetadata m of
        None \<Rightarrow> []
      | Some metadata \<Rightarrow>
          [DidUpdateProgress (transferId metadata) (receivingBytesReceived m) (fileSize metadata)])"

definition handleFileMetadata ::
  "(Data \<Rightarrow> FileMetadata option) \<Rightarrow> manager \<Rightarrow> Data \<Rightarrow> manager \<times> effect list" where
  "handleFileMetadata jsonDecode m d =
     (if \<not> length d > 1 then (m, [])
      else
        (case jsonDecode (subdata d 1 (length d)) of
           None \<Rightarrow> (m, [])
         | Some metadata \<Rightarrow>
             (m\<lparr>receivingTransferId := Some (transferId metadata),
                receivingMetadata := Some metadata, receivingChunks := Map.empty,
                receivingBytesReceived := 0\<rparr>,
              DidStartReceiving metadata # sendAck (transferId metadata))))"

text \<open>
  \<^verbatim>\<open>
  private func handleFileChunk(_ data: Data, channelId: Int) {
      guard data.count > 5 else { return }
      let indexBytes = data.subdata(in: 1..<5)
      let index = indexBytes.withUnsafeBytes { $0.load(as: UInt32.self).bigEndian }
      let chunkData = data.subdata(in: 5..<data.count)
      receivingChunks[Int(index)] = chunkData
      receivingBytesReceived += Int64(chunkData.count)
      updateReceiveProgress()
  }
  \<close>
\<close>

definition fromBigEndian :: "Data \<Rightarrow> nat" where
  "fromBigEndian bs = foldl (\<lambda>acc b. acc * 256 + unat b) 0 bs"

definition handleFileChunk :: "manager \<Rightarrow> Data \<Rightarrow> nat \<Rightarrow> manager \<times> effect list" where
  "handleFileChunk m d channelId =
     (if \<not> length d > 5 then (m, [])
      else
        (let index = fromBigEndian (subdata d 1 5);
             chunkData = subdata d 5 (length d);
             m' = m\<lparr>receivingChunks := (receivingChunks m)(index \<mapsto> chunkData),
                     receivingBytesReceived := receivingBytesReceived m + int (length chunkData)\<rparr>
         in (m', updateReceiveProgress m')))"

text \<open>
  The reassembly loop of \<open>handleFileComplete\<close>, from index \<open>i\<close> for the iterations that
  remain: the bytes, or the first index that has no chunk.
  \<^verbatim>\<open>
  var fileData = Data()
  for i in 0..<metadata.totalChunks {
      guard let chunkData = receivingChunks[i] else { ... "Missing chunk \(i)" ...; return }
      fileData.append(chunkData)
  }
  \<close>
\<close>

fun reassemble :: "(nat \<rightharpoonup> Data) \<Rightarrow> nat \<Rightarrow> nat \<Rightarrow> Data \<Rightarrow> nat + Data" where
  "reassemble chunks i 0 fileData = Inr fileData"
| "reassemble chunks i (Suc k) fileData =
     (case chunks i of
        None \<Rightarrow> Inl i
      | Some chunkData \<Rightarrow> reassemble chunks (Suc i) k (fileData @ chunkData))"

text \<open>
  \<open>handleFileComplete\<close>; \<open>writeError\<close> is the outcome of \<open>fileData.write(to: fileURL)\<close>:
  \<open>None\<close> when the file is written, else the description of the error thrown. The
  digests are compared as Swift strings; the actual one consists of the characters
  \<open>0-9a-f\<close>, to which no other sequence of code units is canonically equivalent, so
  the comparison is the equality of the code units.
\<close>

definition handleFileComplete :: "manager \<Rightarrow> string option \<Rightarrow> Data \<Rightarrow> manager \<times> effect list" where
  "handleFileComplete m writeError d =
     (case receivingMetadata m of
        None \<Rightarrow> (m, [])
      | Some metadata \<Rightarrow>
          (let expectedChecksum =
                 (if length d > 1
                  then (case decodeUTF8 (subdata d 1 (length d)) of Some s \<Rightarrow> s | None \<Rightarrow> '''')
                  else '''')
           in if totalChunks metadata < 0 then (m, [Trap])
              else
                (case reassemble (receivingChunks m) 0 (nat (totalChunks metadata)) [] of
                   Inl i \<Rightarrow>
                     (cleanup m,
                      sendFailedMessage (transferId metadata) (''Missing chunk '' @ showNat i)
                      @ [DidFailTransfer (transferId metadata) (''Missing chunk '' @ showNat i)])
                 | Inr fileData \<Rightarrow>
                     (let actualChecksum = hexString (SHA256 fileData)
                      in if expectedChecksum \<noteq> '''' \<and> actualChecksum \<noteq> expectedChecksum
                         then (cleanup m,
                               sendFailedMessage (transferId metadata) ''Checksum mismatch''
                               @ [DidFailTransfer (transferId metadata) ''Checksum mismatch''])
                         else
                           (cleanup m,
                            WriteTo (fileName metadata) fileData
                            # (case writeError of
                                 None \<Rightarrow>
                                   sendSuccessMessage (transferId metadata)
                                   @ [DidCompleteTransfer (transferId metadata) (fileName metadata)]
                               | Some description \<Rightarrow>
                                   sendFailedMessage (transferId metadata) description
                                   @ [DidFailTransfer (transferId metadata) description]))))))"

text \<open>
  \<^verbatim>\<open>
  func cancelTransfer() {
      if let transferId = sendingTransferId ?? receivingTransferId {
          sendCancelMessage(transferId: transferId)
          cleanup()
          delegate?.dataChannelManager(self, didCancelTransfer: transferId)
      }
  }
  \<close>
\<close>

definition cancelTransfer :: "manager \<Rightarrow> manager \<times> effect list" where
  "cancelTransfer m =
     (case (case sendingTransferId m of Some t \<Rightarrow> Some t | None \<Rightarrow> receivingTransferId m) of
        None \<Rightarrow> (m, [])
      | Some tid \<Rightarrow> (cleanup m, sendCancelMessage tid @ [DidCancelTransfer tid]))"

definition handleTransferSuccess :: "manager \<Rightarrow> manager \<times> effect list" where
  "handleTransferSuccess m =
     (case sendingTransferId m of
        None \<Rightarrow> (m, [])
      | Some tid \<Rightarrow>
          (let total = (case sendingMetadata m of None \<Rightarrow> 0 | Some metadata \<Rightarrow> fileSize metadata)
           in (cleanup m, [DidUpdateProgress tid total total])))"

definition handleTransferFailed :: "manager \<Rightarrow> Data \<Rightarrow> manager \<times> effect list" where
  "handleTransferFailed m d =
     (case sendingTransferId m of
        None \<Rightarrow> (m, [])
      | Some tid \<Rightarrow>
          (let reason =
                 (if length d > 1
                  then (case decodeUTF8 (subdata d 1 (length d)) of
                          Some s \<Rightarrow> s | None \<Rightarrow> ''Transfer failed'')
                  else ''Transfer failed'')
           in (cleanup m, [DidFailTransfer tid reason])))"

definition handleTransferCancel :: "manager \<Rightarrow> manager \<times> effect list" where
  "handleTransferCancel m =
     (let tid = (case sendingTransferId m of
                   Some t \<Rightarrow> t
                 | None \<Rightarrow> (case receivingTransferId m of Some t \<Rightarrow> t | None \<Rightarrow> ''''))
      in (cleanup m, [DidCancelTransfer tid]))"

text \<open>
  \<open>handleIncomingData\<close>: the dispatch on the first byte. Besides the frame and the
  channel it takes the three things the environment decides: the JSON decoder, the
  outcome of writing the file, and whether the transport asks the sender to pause.
\<close>

definition handleIncomingData ::
  "(Data \<Rightarrow> FileMetadata option) \<Rightarrow> string option \<Rightarrow> bool \<Rightarrow> manager \<Rightarrow> Data \<Rightarrow> nat
     \<Rightarrow> manager \<times> effect list" where
  "handleIncomingData jsonDecode writeError pause m d channelId =
     (case d of
        [] \<Rightarrow> (m, [])
      | b # rest \<Rightarrow>
          (case fromRawValue b of
             Some fileMetadata \<Rightarrow> handleFileMetadata jsonDecode m d
           | Some fileChunk \<Rightarrow> handleFileChunk m d channelId
           | Some fileComplete \<Rightarrow> handleFileComplete m writeError d
           | Some transferAck \<Rightarrow> handleTransferAck m pause
           | Some transferSuccess \<Rightarrow> handleTransferSuccess m
           | Some transferFailed \<Rightarrow> handleTransferFailed m d
           | Some transferCancel \<Rightarrow> handleTransferCancel m
           | None \<Rightarrow> (m, [])))"

subsection \<open>Notions used to state the properties of a transfer\<close>

text \<open>The chunk with index \<open>i\<close>, as \<open>sendNextChunks\<close> cuts it out of the file.\<close>

definition chunkAt :: "Data \<Rightarrow> nat \<Rightarrow> Data" where
  "chunkAt d i = subdata d (i * chunkSize) (min (i * chunkSize + chunkSize) (length d))"

text \<open>The frames among the effects, each with its channel.\<close>

fun frameOf :: "effect \<Rightarrow> (Data \<times> nat) list" where
  "frameOf (SendData channelId d) = [(d, channelId)]"
| "frameOf e = []"

definition sentFrames :: "effect list \<Rightarrow> (Data \<times> nat) list" where
  "sentFrames es = concat (map frameOf es)"

text \<open>The payload of a chunk frame, as \<open>handleFileChunk\<close> extracts it.\<close>

definition payload :: "Data \<times> nat \<Rightarrow> Data" where
  "payload f = subdata (fst f) 5 (length (fst f))"

text \<open>The chunks with the indices below \<open>n\<close> that the receiver holds, in index order.\<close>

definition chunksInOrder :: "manager \<Rightarrow> nat \<Rightarrow> Data list" where
  "chunksInOrder m n = map (\<lambda>i. case receivingChunks m i of Some c \<Rightarrow> c | None \<Rightarrow> []) [0..<n]"

text \<open>
  The sender left alone calls \<open>sendNextChunks\<close> again and again, as long as it
  schedules itself. That this ends rests on two facts about a batch: the chunk index
  never decreases, and it increases when a batch is scheduled next.
\<close>

lemma chunkLoop_index:
  "chunkLoop k fileData metadata m = (m', es) \<Longrightarrow>
     sendingChunkIndex m \<le> sendingChunkIndex m' \<and> sendingMetadata m' = sendingMetadata m
     \<and> (k > 0 \<and> int (sendingChunkIndex m) < totalChunks metadata \<and> Trap \<notin> set es
          \<longrightarrow> sendingChunkIndex m < sendingChunkIndex m')"
proof (induction k arbitrary: m m' es)
  case 0
  then show ?case by simp
next
  case (Suc k)
  show ?case
  proof (cases "int (sendingChunkIndex m) < totalChunks metadata")
    case False
    with Suc.prems show ?thesis by simp
  next
    case True
    let ?start = "sendingChunkIndex m * chunkSize"
    let ?end = "min (?start + chunkSize) (length fileData)"
    show ?thesis
    proof (cases "?end < ?start \<or> sendChunk (sendingChunkIndex m) (subdata fileData ?start ?end) = Trap")
      case True
      with Suc.prems \<open>int (sendingChunkIndex m) < totalChunks metadata\<close> show ?thesis
        by (auto simp: Let_def split: if_splits)
    next
      case False
      obtain m1 es1 where r: "chunkLoop k fileData metadata (m\<lparr>sendingChunkIndex := sendingChunkIndex m + 1\<rparr>) = (m1, es1)"
        by fastforce
      from Suc.IH [OF r] have ih: "sendingChunkIndex m + 1 \<le> sendingChunkIndex m1"
        "sendingMetadata m1 = sendingMetadata m" by simp_all
      from False Suc.prems True r have "m' = m1"
        by (auto simp: Let_def split: effect.splits)
      with ih show ?thesis by simp
    qed
  qed
qed

lemma chunkLoop_effects:
  "chunkLoop k fileData metadata m = (m', es) \<Longrightarrow> AsyncSendNextChunks \<notin> set es"
proof (induction k arbitrary: m m' es)
  case 0
  then show ?case by simp
next
  case (Suc k)
  obtain m1 es1 where r: "chunkLoop k fileData metadata (m\<lparr>sendingChunkIndex := sendingChunkIndex m + 1\<rparr>) = (m1, es1)"
    by fastforce
  from Suc.IH [OF r] have "AsyncSendNextChunks \<notin> set es1" .
  with Suc.prems r show ?case
    by (auto simp: Let_def sendChunk_def split: if_splits effect.splits)
qed

lemma sendNextChunks_progress:
  assumes "sendNextChunks m False = (m', es)" and "AsyncSendNextChunks \<in> set es"
  shows "\<exists>metadata. sendingMetadata m = Some metadata \<and> sendingMetadata m' = Some metadata
           \<and> sendingChunkIndex m < sendingChunkIndex m'
           \<and> int (sendingChunkIndex m') < totalChunks metadata"
proof -
  from assms obtain fileData metadata where
    fd: "sendingFileData m = Some fileData" and md: "sendingMetadata m = Some metadata"
    and np: "\<not> sendingPaused m"
    by (auto simp: sendNextChunks_def split: option.splits if_splits)
  define c where "c = min (int parallelChannels) (totalChunks metadata - int (sendingChunkIndex m))"
  obtain m1 es1 where r: "chunkLoop (nat c) fileData metadata m = (m1, es1)"
    by fastforce
  have noasync: "AsyncSendNextChunks \<notin> set es1"
    using chunkLoop_effects [OF r] .
  from assms(1) fd md np r have cases:
    "c < 0 \<and> es = [Trap] \<or> Trap \<in> set es1 \<and> es = es1 \<or>
     (0 \<le> c \<and> Trap \<notin> set es1 \<and> m' = m1 \<and>
      es = es1 @ updateSendProgress m1 @
        (if int (sendingChunkIndex m1) \<ge> totalChunks metadata then sendCompleteMessage m1
         else [AsyncSendNextChunks]))"
    by (auto simp: sendNextChunks_def c_def Let_def split: if_splits)
  have aux: "AsyncSendNextChunks \<notin> set (updateSendProgress m1)"
    "AsyncSendNextChunks \<notin> set (sendCompleteMessage m1)"
    by (auto simp: updateSendProgress_def sendCompleteMessage_def controlFrame_def split: option.splits)
  from cases assms(2) noasync aux have main:
    "0 \<le> c" "Trap \<notin> set es1" "m' = m1" "int (sendingChunkIndex m1) < totalChunks metadata"
    by (auto split: if_splits)
  from chunkLoop_index [OF r] have mono: "sendingChunkIndex m \<le> sendingChunkIndex m1"
    and keep: "sendingMetadata m1 = sendingMetadata m"
    and strict: "nat c > 0 \<and> int (sendingChunkIndex m) < totalChunks metadata \<and> Trap \<notin> set es1
          \<longrightarrow> sendingChunkIndex m < sendingChunkIndex m1"
    by simp_all
  have lt: "int (sendingChunkIndex m) < totalChunks metadata"
    using mono main(4) by linarith
  then have "0 < c" by (simp add: c_def parallelChannels_def)
  with strict lt main(2) have "sendingChunkIndex m < sendingChunkIndex m1" by simp
  with md keep main show ?thesis by simp
qed

text \<open>The frames of a transfer whose transport never asks to pause.\<close>

function sendAll :: "manager \<Rightarrow> manager \<times> effect list" where
  "sendAll m =
     (case sendNextChunks m False of
        (m', es) \<Rightarrow>
          if AsyncSendNextChunks \<in> set es
          then (case sendAll m' of (m'', es') \<Rightarrow> (m'', es @ es'))
          else (m', es))"
  by pat_completeness auto
termination
proof (relation "measure (\<lambda>m. case sendingMetadata m of
                     None \<Rightarrow> 0
                   | Some metadata \<Rightarrow> nat (totalChunks metadata - int (sendingChunkIndex m)))",
       goal_cases)
  case 1
  show ?case by simp
next
  case (2 m m' es)
  then have "sendNextChunks m False = (m', es)" and "AsyncSendNextChunks \<in> set es"
    by simp_all
  from sendNextChunks_progress [OF this] show ?case by auto
qed

declare sendAll.simps [simp del]

text \<open>
  The receiver: \<open>handleIncomingData\<close> for every frame of a list, in order, each with
  its channel.
\<close>

fun receiveAll ::
  "(Data \<Rightarrow> FileMetadata option) \<Rightarrow> string option \<Rightarrow> bool \<Rightarrow> manager \<Rightarrow> (Data \<times> nat) list
     \<Rightarrow> manager \<times> effect list" where
  "receiveAll jsonDecode writeError pause m [] = (m, [])"
| "receiveAll jsonDecode writeError pause m (f # fs) =
     (case handleIncomingData jsonDecode writeError pause m (fst f) (snd f) of
        (m', es) \<Rightarrow>
          (case receiveAll jsonDecode writeError pause m' fs of (m'', es') \<Rightarrow> (m'', es @ es')))"

text \<open>The frame of chunk \<open>j\<close> of a file and its channel, as \<open>sendChunk\<close> emits them.\<close>

definition sentChunk :: "Data \<Rightarrow> nat \<Rightarrow> Data \<times> nat" where
  "sentChunk d j = (chunkFrame j (chunkAt d j), j mod parallelChannels)"

text \<open>
  A frame that \<open>handleIncomingData\<close> passes to \<open>handleFileChunk\<close>, and the index
  under which \<open>handleFileChunk\<close> stores its payload (none when the frame has no payload
  byte and is dropped).
\<close>

definition isChunkFrame :: "Data \<Rightarrow> bool" where
  "isChunkFrame d = (case d of [] \<Rightarrow> False | b # rest \<Rightarrow> b = rawValue fileChunk)"

definition chunkIndex :: "Data \<Rightarrow> nat option" where
  "chunkIndex d = (if length d > 5 then Some (fromBigEndian (subdata d 1 5)) else None)"

text \<open>A manager that neither sends nor receives, and a JSON codec that always fails.\<close>

definition idle :: manager where
  "idle = \<lparr>sendingTransferId = None, sendingFileData = None, sendingMetadata = None,
     sendingChunkIndex = 0, sendingPaused = False, receivingTransferId = None,
     receivingMetadata = None, receivingChunks = Map.empty, receivingBytesReceived = 0\<rparr>"

definition noJsonEncode :: "FileMetadata \<Rightarrow> Data option" where
  "noJsonEncode metadata = None"

definition noJsonDecode :: "Data \<Rightarrow> FileMetadata option" where
  "noJsonDecode d = None"

text \<open>ASCII letters to lower case, for comparing digests without regard to case.\<close>

definition lowercase :: "char \<Rightarrow> char" where
  "lowercase c =
     (case map_of (zip ''ABCDEFGHIJKLMNOPQRSTUVWXYZ'' ''abcdefghijklmnopqrstuvwxyz'') c of
        Some l \<Rightarrow> l
      | None \<Rightarrow> c)"

subsection \<open>Concrete receivers, used to evaluate the handlers\<close>

text \<open>
  The SHA-256 digest of the three bytes 9 9 7, in lower and in upper case.
\<close>

definition digestLower :: string where
  "digestLower = ''75a72031594865f2b3e577fdd29a26e27bd71ee2cd2b8fdf7a831129d4e9fad3''"

definition digestUpper :: string where
  "digestUpper = ''75A72031594865F2B3E577FDD29A26E27BD71EE2CD2B8FDF7A831129D4E9FAD3''"

text \<open>
  A receiver that holds the two chunks of the file \<open>f.bin\<close>, transfer \<open>t1\<close>: chunk 0
  is 9 9, chunk 1 is 7.
\<close>

definition metadata2 :: FileMetadata where
  "metadata2 = \<lparr>transferId = ''t1'', fileName = ''f.bin'', fileSize = 3, fileType = ''bin'',
     totalChunks = 2, checksum = digestLower\<rparr>"

definition receiver2 :: manager where
  "receiver2 = idle\<lparr>receivingTransferId := Some ''t1'', receivingMetadata := Some metadata2,
     receivingChunks := [0 \<mapsto> [9, 9], 1 \<mapsto> [7]], receivingBytesReceived := 3\<rparr>"

text \<open>
  A receiver that holds the only chunk, the two bytes 9 9, of a file whose metadata
  declare the checksum \<open>00\<close>.
\<close>

definition metadata1 :: FileMetadata where
  "metadata1 = \<lparr>transferId = ''t2'', fileName = ''g.bin'', fileSize = 2, fileType = ''bin'',
     totalChunks = 1, checksum = ''00''\<rparr>"

definition receiver1 :: manager where
  "receiver1 = idle\<lparr>receivingTransferId := Some ''t2'', receivingMetadata := Some metadata1,
     receivingChunks := [0 \<mapsto> [9, 9]], receivingBytesReceived := 2\<rparr>"

text \<open>
  A sender that has just read the three-byte file \<open>h.bin\<close> for transfer \<open>t3\<close>, and
  a receiver that has got its metadata.
\<close>

definition file3 :: Data where
  "file3 = [1, 2, 3]"

definition sender3 :: manager where
  "sender3 = idle\<lparr>sendingTransferId := Some ''t3'', sendingFileData := Some file3,
     sendingMetadata := Some (metadataFor ''t3'' ''h.bin'' ''bin'' file3)\<rparr>"

definition receiver3 :: manager where
  "receiver3 = idle\<lparr>receivingTransferId := Some ''t3'',
     receivingMetadata := Some (metadataFor ''t3'' ''h.bin'' ''bin'' file3)\<rparr>"

text \<open>A receiver that has got the metadata of the two-chunk file \<open>k.bin\<close>, transfer \<open>t4\<close>.\<close>

definition metadata4 :: FileMetadata where
  "metadata4 = \<lparr>transferId = ''t4'', fileName = ''k.bin'', fileSize = 2, fileType = ''bin'',
     totalChunks = 2, checksum = ''00''\<rparr>"

definition receiver4 :: manager where
  "receiver4 = idle\<lparr>receivingTransferId := Some ''t4'', receivingMetadata := Some metadata4\<rparr>"

section \<open>Connect codes: properties\<close>

lemma charAt_chars_length:
  assumes "0 \<le> r" "r < 1"
  shows "length (charAt chars \<lfloor>r * real (length chars)\<rfloor>) = 1"
    and "set (charAt chars \<lfloor>r * real (length chars)\<rfloor>) \<subseteq> set chars"
proof -
  let ?i = "\<lfloor>r * real (length chars)\<rfloor>"
  have len: "length chars = 32" by (simp add: chars_def)
  have "0 \<le> r * 32" using assms by simp
  then have lo: "0 \<le> ?i" by (simp add: len)
  have "r * 32 < 32" using assms by simp
  then have hi: "?i < 32" by (simp add: len floor_less_iff)
  from lo hi have eq: "charAt chars ?i = [chars ! nat ?i]"
    by (simp add: charAt_def len)
  show "length (charAt chars ?i) = 1" by (simp add: eq)
  have "nat ?i < 32" using lo hi by linarith
  then have "nat ?i < length chars" by (simp only: len)
  then have "chars ! nat ?i \<in> set chars" by (rule nth_mem)
  then show "set (charAt chars ?i) \<subseteq> set chars" by (simp add: eq)
qed

lemma generateLoop_shape:
  assumes "\<forall>r \<in> sset rnd. 0 \<le> r \<and> r < 1"
  shows "length (fst (generateLoop n rnd code)) = length code + n
       \<and> set (fst (generateLoop n rnd code)) \<subseteq> set code \<union> set chars"
  using assms
proof (induction n arbitrary: rnd code)
  case 0
  then show ?case by simp
next
  case (Suc n)
  have hd: "0 \<le> shd rnd \<and> shd rnd < 1"
    using Suc.prems by (rule bspec) (rule shd_sset)
  have tl: "\<forall>r \<in> sset (stl rnd). 0 \<le> r \<and> r < 1"
  proof
    fix r assume "r \<in> sset (stl rnd)"
    then have "r \<in> sset rnd" by (rule stl_sset)
    with Suc.prems show "0 \<le> r \<and> r < 1" by (rule bspec)
  qed
  define c where "c = charAt chars \<lfloor>shd rnd * real (length chars)\<rfloor>"
  have c1: "length c = 1" and c2: "set c \<subseteq> set chars"
    unfolding c_def using charAt_chars_length hd by blast+
  have step: "generateLoop (Suc n) rnd code = generateLoop n (stl rnd) (code @ c)"
    by (simp only: generateLoop.simps c_def)
  have IH: "length (fst (generateLoop n (stl rnd) (code @ c))) = length (code @ c) + n
       \<and> set (fst (generateLoop n (stl rnd) (code @ c))) \<subseteq> set (code @ c) \<union> set chars"
    by (rule Suc.IH [OF tl])
  show ?case unfolding step using IH c1 c2 by auto
qed

lemma chars_codeClass: "c \<in> set chars \<Longrightarrow> codeClass c"
  by (auto simp: chars_def codeClass_def inRange_def)

text \<open>
  C1 (as amended). Whenever every draw of the random source lies in \<open>[0, 1)\<close>, the
  generated code has six characters, each taken from the generator's 32-character
  alphabet: the letters A to Z without I and O (L is part of it) and the digits 2 to 9,
  that is, the code matches \<open>^[A-HJ-NP-Z2-9]{6}$\<close>.
\<close>

theorem generateConnectCode_alphabet:
  assumes "\<forall>r \<in> sset rnd. 0 \<le> r \<and> r < 1"
  shows "matchesCodePattern (fst (generateConnectCode rnd))
       \<and> set (fst (generateConnectCode rnd)) \<subseteq> set chars"
proof -
  have "length (fst (generateLoop 6 rnd '''')) = 6"
    and sub: "set (fst (generateLoop 6 rnd '''')) \<subseteq> set chars"
    using generateLoop_shape [OF assms, of 6 "''''"] by auto
  moreover have "list_all codeClass (fst (generateLoop 6 rnd ''''))"
    using sub chars_codeClass by (auto simp: list_all_iff)
  ultimately show ?thesis
    by (simp add: generateConnectCode_def matchesCodePattern_def)
qed

lemma generate_const_L:
  "generateConnectCode (sconst (5 / 16)) = (''LLLLLL'', sconst (5 / 16))"
  by (simp add: generateConnectCode_def eval_nat_numeral charAt_def chars_def)

theorem generateConnectCode_alphabet_witness:
  "sset (sconst (5 / 16 :: real)) = {5 / 16} \<and> (0 :: real) \<le> 5 / 16 \<and> (5 / 16 :: real) < 1
   \<and> matchesCodePattern (fst (generateConnectCode (sconst (5 / 16))))
   \<and> set (fst (generateConnectCode (sconst (5 / 16)))) \<subseteq> set chars
   \<and> fst (generateConnectCode (sconst (5 / 16))) = ''LLLLLL''"
proof -
  have "\<forall>r \<in> sset (sconst (5 / 16 :: real)). 0 \<le> r \<and> r < 1" by simp
  from generateConnectCode_alphabet [OF this] show ?thesis
    by (simp add: generate_const_L)
qed

text \<open>
  C1 (as stated) fails: when every draw is \<open>5/16\<close> the index is 10 and the code is
  \<open>LLLLLL\<close>, which \<open>^[A-HJ-KM-NP-Z2-9]{6}$\<close> does not match.
\<close>

theorem generateConnectCode_spec_pattern_counterexample:
  "fst (generateConnectCode (sconst (5 / 16))) = ''LLLLLL''
   \<and> \<not> matchesSpecPattern (fst (generateConnectCode (sconst (5 / 16))))"
  by (simp add: generate_const_L matchesSpecPattern_def specClass_def inRange_def)

text \<open>
  The loop never signals a failure: it returns a code, and the table is either
  unchanged or extended by the row of this user and the returned code.
\<close>

lemma codeLoop_done: "\<not> attempts < 10 \<Longrightarrow> codeLoop u attempts code rnd t = (code, rnd, t)"
  by (simp add: codeLoop.simps)

lemma codeLoop_returns_code:
  "attempts < 10 \<Longrightarrow>
     \<exists>c rnd' t'. codeLoop u attempts code rnd t = (Some c, rnd', t')
       \<and> (t' = t \<or> t' = t @ [(u, c)])"
proof (induction u attempts code rnd t rule: codeLoop.induct)
  case (1 u attempts code rnd t)
  obtain c rnd' where g: "generateConnectCode rnd = (c, rnd')" by fastforce
  show ?case
  proof (cases "insertCode t u c")
    case (Some t')
    then have "t' = t @ [(u, c)]" by (auto simp: insertCode_def split: if_splits)
    with Some g "1.prems" show ?thesis by (simp add: codeLoop.simps)
  next
    case None
    show ?thesis
    proof (cases "attempts + 1 < 10")
      case True
      from "1.IH" [OF "1.prems" g [symmetric] None True] None g "1.prems"
      show ?thesis by (simp add: codeLoop.simps [of u attempts])
    next
      case False
      then have "codeLoop u (attempts + 1) (Some c) rnd' t = (Some c, rnd', t)"
        by (intro codeLoop_done) simp
      with None g "1.prems" show ?thesis
        by (simp add: codeLoop.simps [of u attempts])
    qed
  qed
qed

lemma insert_taken:
  "insertCode [(''bob'', ''LLLLLL'')] ''alice'' ''LLLLLL'' = None"
  by (simp add: insertCode_def)

lemma codeLoop_all_collide:
  "codeLoop ''alice'' 0 None (sconst (5 / 16)) [(''bob'', ''LLLLLL'')] =
     (Some ''LLLLLL'', sconst (5 / 16), [(''bob'', ''LLLLLL'')])"
  by (simp add: codeLoop.simps generate_const_L insert_taken)

text \<open>
  C7. The claim asks for a failure (\<open>CodeExhaustion\<close>) once ten candidates in a row
  collide. The code has no such branch: after the tenth failed insert the loop ends and
  the last candidate is returned. Here user \<open>alice\<close> has no code, \<open>bob\<close> holds
  \<open>LLLLLL\<close> and every draw yields \<open>LLLLLL\<close>: all ten inserts are rejected, the
  call returns \<open>LLLLLL\<close>, the table is unchanged, and the returned code is stored for
  \<open>bob\<close> and not for \<open>alice\<close>.
\<close>

theorem getOrCreateConnectCode_exhausted:
  "getOrCreateConnectCode ''alice'' (sconst (5 / 16)) [(''bob'', ''LLLLLL'')] =
     (Some ''LLLLLL'', sconst (5 / 16), [(''bob'', ''LLLLLL'')])
   \<and> selectCode [(''bob'', ''LLLLLL'')] ''alice'' = None
   \<and> selectCode [(''bob'', ''LLLLLL'')] ''bob'' = Some ''LLLLLL''"
  by (simp add: getOrCreateConnectCode_def selectCode_def codeLoop_all_collide)

section \<open>Signalling hub: properties\<close>

lemmas scenario_defs = alice_def bob_def aliceClient_def bobClient_def sockets0_def hub0_def
  sessionS1_def hubS1_def requestS1_def readyS1_def verifyToken0_def

lemmas hub_defs = getProp_def stringify_def send_def getClient_def senderName_def errorMessage_def
  notifyFriendsOfStatus_def otherPeer_def

lemma map_of_update_same: "map_of (AList.update k v al) k = Some v"
  by (simp add: update_conv')

lemma send3_no_error:
  "ty \<noteq> ''error'' \<Longrightarrow>
   list_all (\<lambda>e. messageType e \<noteq> JStr ''error'') (send h x [(''type'', JStr ty), (k1, v1), (k2, v2)])"
  by (simp add: send_def stringify_def getProp_def)

lemma notify_no_close: "filter isClose (notifyFriendsOfStatus h u b) = []"
proof -
  have "filter isClose (concat (map (\<lambda>(clientId, c). send h (ws c) m) cs)) = []"
    for m and cs :: "(userId \<times> client) list"
    by (induction cs) (auto simp: send_def)
  then show ?thesis by (simp add: notifyFriendsOfStatus_def)
qed

subsection \<open>Session requests\<close>

text \<open>Whatever the request, the message forwarded to the responder has no file hint.\<close>

lemma request_forward_has_no_file_hint:
  "list_all (\<lambda>e. case e of
       Sent x m \<Rightarrow> getProp m ''fileName'' = JUndefined \<and> getProp m ''fileSize'' = JUndefined
                    \<and> getProp m ''fileType'' = JUndefined
     | Closed x code reason \<Rightarrow> True)
     (snd (case_rtc_session_request h now w c data))"
  by (auto simp: case_rtc_session_request_def send_def stringify_def getProp_def errorMessage_def
        split: option.split)

text \<open>
  C9. Alice (socket 1) asks for session \<open>S1\<close> with Bob, who is connected on socket 2,
  and sends the file hint \<open>fileName = r.bin\<close>, \<open>fileSize = 131072\<close>,
  \<open>fileType = bin\<close>. The hub stores the session in state \<open>pending\<close> and forwards
  \<open>senderId\<close>, \<open>senderName\<close> and \<open>sessionId\<close> to Bob; the forwarded message has no
  \<open>fileName\<close>, \<open>fileSize\<close> or \<open>fileType\<close>, although the receiving client reads
  these three properties from an incoming \<open>rtc_session_request\<close>.
\<close>

theorem rtc_session_request_drops_file_hint:
  "handleFluxMessage hub0 7 1 aliceClient (Obj requestS1) =
     Some (hubS1 pending,
           [Sent 2 [(''type'', JStr ''rtc_session_request''), (''senderId'', JStr ''A''),
                    (''senderName'', JStr ''alice''), (''sessionId'', JStr ''S1'')]])"
  by (simp add: handleFluxMessage_def case_rtc_session_request_def scenario_defs hub_defs)

subsection \<open>Session transitions\<close>

text \<open>
  A session that is not in the table: \<open>rtc_session_accept\<close> answers
  \<open>Session not found\<close>, \<open>rtc_session_ready\<close> is ignored.
\<close>

lemma accept_unknown_session:
  "map_of (rtcSessions h) (getProp data ''sessionId'') = None \<Longrightarrow>
     case_rtc_session_accept h w c data = (h, send h w (errorMessage ''Session not found''))"
  by (simp add: case_rtc_session_accept_def)

lemma ready_unknown_session:
  "map_of (rtcSessions h) (getProp data ''sessionId'') = None \<Longrightarrow>
     case_rtc_session_ready h w c data = (h, [])"
  by (simp add: case_rtc_session_ready_def)

text \<open>
  C6 (as stated) fails: \<open>rtc_session_ready\<close> for session \<open>S1\<close>, which is still
  \<open>pending\<close>, moves the session to \<open>connected\<close>; the only message goes to the other
  peer, and the sender gets no \<open>error\<close>.
\<close>

theorem rtc_session_ready_on_pending_counterexample:
  "handleFluxMessage (hubS1 pending) 8 1 aliceClient (Obj readyS1) =
     Some (hubS1 connected,
           [Sent 2 [(''type'', JStr ''rtc_session_ready''), (''sessionId'', JStr ''S1''),
                    (''senderId'', JStr ''A'')]])"
  by (simp add: handleFluxMessage_def case_rtc_session_ready_def scenario_defs hub_defs)

text \<open>
  C6 (as amended). For \<open>rtc_session_accept\<close> and \<open>rtc_session_ready\<close> that name a
  session of the table, whatever the state of that session, the hub performs the
  transition (the state becomes \<open>accepted\<close>, respectively \<open>connected\<close>) and sends no
  \<open>error\<close> message.
\<close>

theorem session_transition_unchecked:
  assumes "map_of (rtcSessions h) (getProp data ''sessionId'') = Some s"
    and "getProp data ''type'' = JStr ''rtc_session_accept'' \<and> target = accepted
       \<or> getProp data ''type'' = JStr ''rtc_session_ready'' \<and> target = connected"
  shows "\<exists>h' evs. handleFluxMessage h now w c (Obj data) = Some (h', evs)
           \<and> map_of (rtcSessions h') (getProp data ''sessionId'') = Some (s\<lparr>state := target\<rparr>)
           \<and> list_all (\<lambda>e. messageType e \<noteq> JStr ''error'') evs"
  using assms(2)
proof
  assume a: "getProp data ''type'' = JStr ''rtc_session_accept'' \<and> target = accepted"
  then have "handleFluxMessage h now w c (Obj data) = Some (case_rtc_session_accept h w c data)"
    by (simp add: handleFluxMessage_def)
  then show ?thesis
    using a assms(1) send3_no_error [of "''rtc_session_accept''"]
    by (simp add: case_rtc_session_accept_def map_of_update_same split: option.split)
next
  assume a: "getProp data ''type'' = JStr ''rtc_session_ready'' \<and> target = connected"
  then have "handleFluxMessage h now w c (Obj data) = Some (case_rtc_session_ready h w c data)"
    by (simp add: handleFluxMessage_def)
  then show ?thesis
    using a assms(1) send3_no_error [of "''rtc_session_ready''"]
    by (simp add: case_rtc_session_ready_def map_of_update_same split: option.split)
qed

theorem session_transition_unchecked_witness:
  "map_of (rtcSessions (hubS1 pending)) (getProp readyS1 ''sessionId'') = Some (sessionS1 pending)
   \<and> getProp readyS1 ''type'' = JStr ''rtc_session_ready''
   \<and> (\<exists>h' evs. handleFluxMessage (hubS1 pending) 8 1 aliceClient (Obj readyS1) = Some (h', evs)
         \<and> map_of (rtcSessions h') (JStr ''S1'') = Some (sessionS1 connected)
         \<and> list_all (\<lambda>e. messageType e \<noteq> JStr ''error'') evs)"
proof -
  have 1: "map_of (rtcSessions (hubS1 pending)) (getProp readyS1 ''sessionId'') = Some (sessionS1 pending)"
    by (simp add: scenario_defs getProp_def)
  have 2: "getProp readyS1 ''type'' = JStr ''rtc_session_ready''"
    by (simp add: scenario_defs getProp_def)
  have 3: "getProp readyS1 ''sessionId'' = JStr ''S1''"
    by (simp add: scenario_defs getProp_def)
  have 4: "sessionS1 pending\<lparr>state := connected\<rparr> = sessionS1 connected"
    by (simp add: sessionS1_def)
  from session_transition_unchecked [of "hubS1 pending" readyS1 "sessionS1 pending" connected 8 1 aliceClient] 1 2
  show ?thesis by (simp add: 3 4)
qed

subsection \<open>Socket close\<close>

text \<open>Every message of the close handler is a \<open>friend_offline\<close> broadcast.\<close>

lemma onClose_only_presence:
  "list_all (\<lambda>e. messageType e = JStr ''friend_offline'') (snd (onClose h w u))"
proof -
  have "list_all (\<lambda>e. messageType e = JStr ''friend_offline'')
          (concat (map (\<lambda>(clientId, c). send h' (ws c)
             [(''type'', JStr ''friend_offline''), (''friendId'', JStr x)]) cs))"
    for h' x and cs :: "(userId \<times> client) list"
    by (induction cs) (auto simp: send_def stringify_def getProp_def)
  then show ?thesis
    by (simp add: onClose_def Let_def notifyFriendsOfStatus_def)
qed

text \<open>
  C5. Alice and Bob are in session \<open>S1\<close> (state \<open>connected\<close>) when Alice's socket
  closes. The hub removes Alice from the registry and deletes \<open>S1\<close>, but the only
  message it sends is the presence broadcast \<open>friend_offline\<close>: Bob, the surviving
  peer, is connected and receives no \<open>rtc_session_close\<close>.
\<close>

theorem onClose_sends_no_session_close:
  "snd (onClose (hubS1 connected) 1 alice) =
     [Sent 2 [(''type'', JStr ''friend_offline''), (''friendId'', JStr ''A'')]]
   \<and> rtcSessions (fst (onClose (hubS1 connected) 1 alice)) = []
   \<and> fluxClients (fst (onClose (hubS1 connected) 1 alice)) = [(''B'', bobClient)]"
  by (simp add: onClose_def scenario_defs hub_defs Let_def)

subsection \<open>A second connection of the same user\<close>

text \<open>
  C8 (as stated) fails: Alice is registered on socket 1 and connects again on socket 3.
  No socket is closed, socket 1 stays open, and the registry entry of Alice now holds
  socket 3.
\<close>

theorem onConnection_keeps_prior_socket_counterexample:
  "filter isClose (snd (onConnection verifyToken0 9 hub0 3 (Some ''tokenA''))) = []
   \<and> readyState (fst (onConnection verifyToken0 9 hub0 3 (Some ''tokenA''))) 1 = OPEN
   \<and> map_of (fluxClients (fst (onConnection verifyToken0 9 hub0 3 (Some ''tokenA'')))) ''A''
       = Some \<lparr>ws = 3, user = alice, connectedAt = 9\<rparr>"
  by (simp add: onConnection_def scenario_defs hub_defs Let_def)

text \<open>
  C8 (as amended). When a socket with a valid token is accepted for a user who already
  has a registry entry, the hub replaces that entry by the new connection: the registry
  keeps the same keys, one entry per user, the state of every socket (the prior one
  included) is unchanged, and no socket is closed.
\<close>

theorem onConnection_replaces_without_close:
  assumes "verifyToken t = Some u" and "t \<noteq> []"
    and "map_of (fluxClients h) (uid u) = Some old"
    and "distinct (map fst (fluxClients h))"
  shows "map_of (fluxClients (fst (onConnection verifyToken now h w (Some t)))) (uid u)
           = Some \<lparr>ws = w, user = u, connectedAt = now\<rparr>
       \<and> map fst (fluxClients (fst (onConnection verifyToken now h w (Some t))))
           = map fst (fluxClients h)
       \<and> distinct (map fst (fluxClients (fst (onConnection verifyToken now h w (Some t)))))
       \<and> readyState (fst (onConnection verifyToken now h w (Some t))) = readyState h
       \<and> filter isClose (snd (onConnection verifyToken now h w (Some t))) = []"
proof -
  have key: "uid u \<in> set (map fst (fluxClients h))"
    using assms(3) by (metis map_of_eq_None_iff option.distinct(1) set_map)
  have keys: "map fst (AList.update (uid u) v (fluxClients h)) = map fst (fluxClients h)" for v
    using key by (simp add: update_keys)
  show ?thesis
    using assms(1,2,4)
    by (simp add: onConnection_def Let_def map_of_update_same keys notify_no_close send_def)
qed

theorem onConnection_replaces_without_close_witness:
  "verifyToken0 ''tokenA'' = Some alice \<and> ''tokenA'' \<noteq> []
   \<and> map_of (fluxClients hub0) (uid alice) = Some aliceClient
   \<and> distinct (map fst (fluxClients hub0))
   \<and> map_of (fluxClients (fst (onConnection verifyToken0 9 hub0 3 (Some ''tokenA'')))) (uid alice)
           = Some \<lparr>ws = 3, user = alice, connectedAt = 9\<rparr>
   \<and> map fst (fluxClients (fst (onConnection verifyToken0 9 hub0 3 (Some ''tokenA''))))
           = map fst (fluxClients hub0)
   \<and> distinct (map fst (fluxClients (fst (onConnection verifyToken0 9 hub0 3 (Some ''tokenA'')))))
   \<and> readyState (fst (onConnection verifyToken0 9 hub0 3 (Some ''tokenA''))) = readyState hub0
   \<and> filter isClose (snd (onConnection verifyToken0 9 hub0 3 (Some ''tokenA''))) = []"
proof -
  have 1: "verifyToken0 ''tokenA'' = Some alice" by (simp add: verifyToken0_def)
  have 2: "''tokenA'' \<noteq> []" by simp
  have 3: "map_of (fluxClients hub0) (uid alice) = Some aliceClient"
    by (simp add: hub0_def alice_def)
  have 4: "distinct (map fst (fluxClients hub0))" by (simp add: hub0_def)
  from onConnection_replaces_without_close
         [where verifyToken = verifyToken0 and t = "''tokenA''" and u = alice and h = hub0
            and old = aliceClient and now = 9 and w = 3, OF 1 2 3 4] 1 2 3 4
  show ?thesis by blast
qed

section \<open>Transfer protocol: properties\<close>

subsection \<open>Splitting and concatenating\<close>

lemma chunkSize_pos: "0 < chunkSize"
  by (simp add: chunkSize_def)

lemma chunkAt_take: "chunkAt d i = take chunkSize (drop (i * chunkSize) d)"
  by (simp add: chunkAt_def subdata_def min_def)

lemma concat_chunkAt: "concat (map (chunkAt d) [0..<n]) = take (n * chunkSize) d"
proof (induction n)
  case 0
  then show ?case by simp
next
  case (Suc n)
  have "concat (map (chunkAt d) [0..<Suc n]) = take (n * chunkSize) d @ chunkAt d n"
    using Suc.IH by simp
  also have "\<dots> = take (n * chunkSize + chunkSize) d"
    by (simp add: chunkAt_take take_add)
  finally show ?case by (simp add: add.commute)
qed

lemma below_totalChunks:
  "int j < \<lceil>real n / real chunkSize\<rceil> \<longleftrightarrow> j * chunkSize < n"
proof -
  have "int j < \<lceil>real n / real chunkSize\<rceil> \<longleftrightarrow> real j < real n / real chunkSize"
    by (simp add: less_ceiling_iff)
  also have "\<dots> \<longleftrightarrow> real j * real chunkSize < real n"
    using chunkSize_pos by (simp add: pos_less_divide_eq)
  also have "\<dots> \<longleftrightarrow> j * chunkSize < n"
    by (metis of_nat_less_iff of_nat_mult)
  finally show ?thesis .
qed

lemma totalChunks_covers: "n \<le> nat \<lceil>real n / real chunkSize\<rceil> * chunkSize"
proof -
  let ?N = "nat \<lceil>real n / real chunkSize\<rceil>"
  have "\<not> ?N * chunkSize < n"
  proof
    assume "?N * chunkSize < n"
    then have lt: "int ?N < \<lceil>real n / real chunkSize\<rceil>"
      by (simp only: below_totalChunks)
    have "(0 :: real) \<le> real n / real chunkSize" by simp
    then have "\<lceil>0 :: real\<rceil> \<le> \<lceil>real n / real chunkSize\<rceil>" by (rule ceiling_mono)
    then have "int ?N = \<lceil>real n / real chunkSize\<rceil>" by simp
    with lt show False by linarith
  qed
  then show ?thesis by (rule leI)
qed

lemma split_concat:
  "concat (map (chunkAt d) [0..<nat \<lceil>real (length d) / real chunkSize\<rceil>]) = d"
  by (simp add: concat_chunkAt totalChunks_covers)

lemma chunkAt_length: "length (chunkAt d i) \<le> chunkSize"
  by (simp add: chunkAt_take)

lemma chunkAt_nonempty: "i * chunkSize < length d \<Longrightarrow> chunkAt d i \<noteq> []"
  using chunkSize_pos by (simp add: chunkAt_take)

subsection \<open>The frames of the sender\<close>

lemma chunkLoop_frames:
  assumes "totalChunks metadata = int N" and "N \<le> 2 ^ 32"
    and "\<forall>j<N. j * chunkSize < length d"
  shows "sendingChunkIndex m + k \<le> N \<Longrightarrow>
     chunkLoop k d metadata m =
       (m\<lparr>sendingChunkIndex := sendingChunkIndex m + k\<rparr>,
        map (\<lambda>j. SendData (j mod parallelChannels) (chunkFrame j (chunkAt d j)))
          [sendingChunkIndex m..<sendingChunkIndex m + k])"
proof (induction k arbitrary: m)
  case 0
  then show ?case by simp
next
  case (Suc k)
  let ?i = "sendingChunkIndex m"
  let ?m1 = "m\<lparr>sendingChunkIndex := ?i + 1\<rparr>"
  have i: "?i < N" using Suc.prems by simp
  then have guard: "int ?i < totalChunks metadata" by (simp add: assms(1))
  have start: "?i * chunkSize < length d" using assms(3) i by blast
  then have range: "\<not> min (?i * chunkSize + chunkSize) (length d) < ?i * chunkSize"
    by simp
  have fits: "?i < 2 ^ 32" using i assms(2) by linarith
  have chunk: "sendChunk ?i (subdata d (?i * chunkSize) (min (?i * chunkSize + chunkSize) (length d)))
      = SendData (?i mod parallelChannels) (chunkFrame ?i (chunkAt d ?i))"
    using fits by (simp add: sendChunk_def chunkAt_def)
  have "sendingChunkIndex ?m1 + k \<le> N" using Suc.prems by simp
  from Suc.IH [OF this]
  have rest: "chunkLoop k d metadata ?m1 =
      (m\<lparr>sendingChunkIndex := ?i + Suc k\<rparr>,
       map (\<lambda>j. SendData (j mod parallelChannels) (chunkFrame j (chunkAt d j))) [Suc ?i..<?i + Suc k])"
    by simp
  have upt: "[?i..<?i + Suc k] = ?i # [Suc ?i..<?i + Suc k]"
    by (simp add: upt_conv_Cons)
  show ?case
    unfolding chunkLoop.simps Let_def
    using guard range by (simp only: chunk rest upt) simp
qed

lemma sendNextChunks_step:
  assumes "sendingFileData m = Some d" and "sendingMetadata m = Some metadata"
    and "\<not> sendingPaused m"
    and "totalChunks metadata = int N" and "N \<le> 2 ^ 32"
    and "\<forall>j<N. j * chunkSize < length d"
    and "sendingChunkIndex m \<le> N"
    and "c = min parallelChannels (N - sendingChunkIndex m)"
    and "m' = m\<lparr>sendingChunkIndex := sendingChunkIndex m + c\<rparr>"
  shows "sendNextChunks m False =
     (m', map (\<lambda>j. SendData (j mod parallelChannels) (chunkFrame j (chunkAt d j)))
            [sendingChunkIndex m..<sendingChunkIndex m + c]
          @ updateSendProgress m'
          @ (if N \<le> sendingChunkIndex m + c then controlFrame fileComplete (checksum metadata)
             else [AsyncSendNextChunks]))"
proof -
  let ?i = "sendingChunkIndex m"
  have c_int: "min (int parallelChannels) (totalChunks metadata - int ?i) = int c"
    using assms(4,7,8) by (auto simp: min_def)
  have le: "?i + c \<le> N" using assms(7,8) by simp
  have loop: "chunkLoop c d metadata m =
      (m', map (\<lambda>j. SendData (j mod parallelChannels) (chunkFrame j (chunkAt d j))) [?i..<?i + c])"
    using chunkLoop_frames [OF assms(4,5,6) le] assms(9) by simp
  have notrap: "Trap \<notin> set (map (\<lambda>j. SendData (j mod parallelChannels) (chunkFrame j (chunkAt d j))) [?i..<?i + c])"
    by auto
  have md': "sendingMetadata m' = Some metadata" using assms(2,9) by simp
  have idx': "sendingChunkIndex m' = ?i + c" using assms(9) by simp
  have cond: "(int (sendingChunkIndex m') \<ge> totalChunks metadata) = (N \<le> ?i + c)"
    using assms(4) idx' by auto
  have complete: "sendCompleteMessage m' = controlFrame fileComplete (checksum metadata)"
    by (simp add: sendCompleteMessage_def md')
  show ?thesis
    unfolding sendNextChunks_def
    using assms(1,2,3) notrap
    by (simp only: c_int loop Let_def nat_int option.case split: prod.split)
       (simp add: cond complete)
qed

lemma sentFrames_append: "sentFrames (a @ b) = sentFrames a @ sentFrames b"
  by (simp add: sentFrames_def)

lemma sentFrames_progress: "sentFrames (updateSendProgress m) = []"
  by (cases "sendingMetadata m") (simp_all add: sentFrames_def updateSendProgress_def)

lemma sentFrames_chunks:
  "sentFrames (map (\<lambda>j. SendData (g j) (f j)) js) = map (\<lambda>j. (f j, g j)) js"
  by (induction js) (simp_all add: sentFrames_def)

lemma sentFrames_control: "sentFrames (controlFrame t s) = [(rawValue t # utf8 s, 0)]"
  by (simp add: sentFrames_def controlFrame_def)

lemma sentFrames_async: "sentFrames (AsyncSendNextChunks # es) = sentFrames es"
  by (simp add: sentFrames_def)

lemma sendAll_frames:
  assumes "sendingFileData m = Some d" and "sendingMetadata m = Some metadata"
    and "\<not> sendingPaused m"
    and "totalChunks metadata = int N" and "N \<le> 2 ^ 32"
    and "\<forall>j<N. j * chunkSize < length d"
    and "sendingChunkIndex m \<le> N"
  shows "sentFrames (snd (sendAll m)) =
     map (\<lambda>j. (chunkFrame j (chunkAt d j), j mod parallelChannels)) [sendingChunkIndex m..<N]
     @ [(rawValue fileComplete # utf8 (checksum metadata), 0)]"
  using assms
proof (induction "N - sendingChunkIndex m" arbitrary: m rule: less_induct)
  case less
  let ?i = "sendingChunkIndex m"
  define c where "c = min parallelChannels (N - ?i)"
  define m' where "m' = m\<lparr>sendingChunkIndex := ?i + c\<rparr>"
  define chunks where
    "chunks = map (\<lambda>j. SendData (j mod parallelChannels) (chunkFrame j (chunkAt d j))) [?i..<?i + c]"
  define tail where
    "tail = (if N \<le> ?i + c then controlFrame fileComplete (checksum metadata)
             else [AsyncSendNextChunks])"
  have step: "sendNextChunks m False = (m', chunks @ updateSendProgress m' @ tail)"
    unfolding chunks_def tail_def
    by (rule sendNextChunks_step [OF less.prems(1-7) c_def m'_def])
  have async_chunks: "AsyncSendNextChunks \<notin> set chunks"
    by (auto simp: chunks_def)
  have async_progress: "AsyncSendNextChunks \<notin> set (updateSendProgress m')"
    by (auto simp: updateSendProgress_def split: option.splits)
  have frames_here: "sentFrames chunks =
      map (\<lambda>j. (chunkFrame j (chunkAt d j), j mod parallelChannels)) [?i..<?i + c]"
    unfolding chunks_def by (rule sentFrames_chunks)
  have le: "?i + c \<le> N" using less.prems(7) by (simp add: c_def)
  show ?case
  proof (cases "N \<le> ?i + c")
    case True
    then have tail: "tail = controlFrame fileComplete (checksum metadata)"
      by (simp add: tail_def)
    have "AsyncSendNextChunks \<notin> set (chunks @ updateSendProgress m' @ tail)"
      using async_chunks async_progress by (simp add: tail controlFrame_def)
    then have "sendAll m = (m', chunks @ updateSendProgress m' @ tail)"
      by (subst sendAll.simps) (simp add: step)
    moreover have "?i + c = N" using True le by simp
    ultimately show ?thesis
      by (simp add: sentFrames_append sentFrames_progress frames_here tail sentFrames_control)
  next
    case False
    then have tail: "tail = [AsyncSendNextChunks]" by (simp add: tail_def)
    have c: "0 < c" using False by (auto simp: c_def parallelChannels_def min_def)
    have all: "sendAll m = (fst (sendAll m'), (chunks @ updateSendProgress m' @ tail) @ snd (sendAll m'))"
      by (subst sendAll.simps) (simp add: step tail split: prod.split)
    have smaller: "N - sendingChunkIndex m' < N - ?i"
      using c False by (simp add: m'_def)
    have rest: "sentFrames (snd (sendAll m')) =
        map (\<lambda>j. (chunkFrame j (chunkAt d j), j mod parallelChannels)) [sendingChunkIndex m'..<N]
        @ [(rawValue fileComplete # utf8 (checksum metadata), 0)]"
      using less.prems le by (intro less.hyps [OF smaller]) (simp_all add: m'_def)
    have idx: "sendingChunkIndex m' = ?i + c" by (simp add: m'_def)
    have upt: "[?i..<N] = [?i..<?i + c] @ [?i + c..<N]"
    proof -
      from le obtain k where k: "N = ?i + c + k" by (auto simp: le_iff_add)
      have "[?i..<?i + c + k] = [?i..<?i + c] @ [?i + c..<?i + c + k]"
        by (rule upt_add_eq_append) simp
      then show ?thesis by (simp only: k)
    qed
    show ?thesis
      by (simp add: all sentFrames_append sentFrames_progress frames_here tail rest idx upt
            sentFrames_async)
  qed
qed

subsection \<open>The receiver\<close>

lemma fromBigEndian_bigEndian4:
  assumes "i < 2 ^ 32"
  shows "fromBigEndian (bigEndian4 i) = i"
proof -
  define q1 where "q1 = i div 256"
  define q2 where "q2 = q1 div 256"
  define q3 where "q3 = q2 div 256"
  define r0 where "r0 = i mod 256"
  define r1 where "r1 = q1 mod 256"
  define r2 where "r2 = q2 mod 256"
  have d8: "i div 256 = q1" by (simp add: q1_def)
  have d16: "i div 65536 = q2"
    unfolding q2_def q1_def by (simp add: div_mult2_eq [symmetric])
  have d24: "i div 16777216 = q3"
    unfolding q3_def q2_def q1_def by (simp add: div_mult2_eq [symmetric])
  have "q3 < 256" using assms unfolding d24 [symmetric] by (simp add: less_mult_imp_div_less)
  then have m3: "q3 mod 256 = q3" by simp
  have e1: "q1 * 256 + r0 = i" by (simp add: q1_def r0_def)
  have e2: "q2 * 256 + r1 = q1" by (simp add: q2_def r1_def)
  have e3: "q3 * 256 + r2 = q2" by (simp add: q3_def r2_def)
  have "fromBigEndian (bigEndian4 i) = ((q3 mod 256 * 256 + r2) * 256 + r1) * 256 + r0"
    unfolding r0_def r1_def r2_def
    by (simp add: fromBigEndian_def bigEndian4_def unat_of_nat d8 d16 d24)
  also have "\<dots> = i" by (simp only: m3 e3 e2 e1)
  finally show ?thesis .
qed

lemma bigEndian4_length: "length (bigEndian4 i) = 4"
  by (simp add: bigEndian4_def)

lemma chunkFrame_parts:
  "length (chunkFrame i p) = 5 + length p"
  "subdata (chunkFrame i p) 1 5 = bigEndian4 i"
  "subdata (chunkFrame i p) 5 (length (chunkFrame i p)) = p"
  "subdata (chunkFrame i p) (Suc 0) 5 = bigEndian4 i"
  "subdata (chunkFrame i p) 5 (5 + length p) = p"
  by (simp_all add: chunkFrame_def subdata_def bigEndian4_def)

lemma handleFileChunk_chunkFrame:
  assumes "i < 2 ^ 32" and "p \<noteq> []"
  shows "handleFileChunk m (chunkFrame i p) channelId =
     (m\<lparr>receivingChunks := (receivingChunks m)(i \<mapsto> p),
        receivingBytesReceived := receivingBytesReceived m + int (length p)\<rparr>,
      updateReceiveProgress
        (m\<lparr>receivingChunks := (receivingChunks m)(i \<mapsto> p),
           receivingBytesReceived := receivingBytesReceived m + int (length p)\<rparr>))"
  using assms
  by (simp add: handleFileChunk_def chunkFrame_parts fromBigEndian_bigEndian4 Let_def)

lemma handleIncomingData_chunkFrame:
  "handleIncomingData jsonDecode writeError pause m (chunkFrame i p) channelId =
     handleFileChunk m (chunkFrame i p) channelId"
  by (simp add: handleIncomingData_def chunkFrame_def fromRawValue_def)

lemma receiveAll_Cons_fst:
  "fst (receiveAll jd we ps m (f # fs)) =
     fst (receiveAll jd we ps (fst (handleIncomingData jd we ps m (fst f) (snd f))) fs)"
  by (simp split: prod.split)

lemma receiveAll_append:
  "fst (receiveAll jd we ps m (fs @ gs)) = fst (receiveAll jd we ps (fst (receiveAll jd we ps m fs)) gs)"
proof (induction fs arbitrary: m)
  case Nil
  then show ?case by simp
next
  case (Cons f fs)
  show ?case by (simp only: append_Cons receiveAll_Cons_fst Cons.IH)
qed

lemma receiveAll_single:
  "fst (receiveAll jd we ps m [f]) = fst (handleIncomingData jd we ps m (fst f) (snd f))"
  by (simp split: prod.split)

lemma reassemble_present:
  "(\<And>j. i \<le> j \<Longrightarrow> j < i + k \<Longrightarrow> chunks j = Some (g j)) \<Longrightarrow>
     reassemble chunks i k acc = Inr (acc @ concat (map g [i..<i + k]))"
proof (induction k arbitrary: i acc)
  case 0
  then show ?case by simp
next
  case (Suc k)
  have here: "chunks i = Some (g i)" using Suc.prems [of i] by simp
  have "reassemble chunks (Suc i) k (acc @ g i) = Inr ((acc @ g i) @ concat (map g [Suc i..<Suc i + k]))"
    using Suc.prems by (intro Suc.IH) simp_all
  moreover have "[i..<i + Suc k] = i # [Suc i..<Suc i + k]"
    by (simp add: upt_conv_Cons)
  ultimately show ?case by (simp add: here)
qed

lemma reassemble_chunksInOrder:
  assumes "\<forall>i<n. receivingChunks m i \<noteq> None"
  shows "reassemble (receivingChunks m) 0 n [] = Inr (concat (chunksInOrder m n))"
proof -
  have "reassemble (receivingChunks m) 0 n [] =
      Inr ([] @ concat (map (\<lambda>i. case receivingChunks m i of Some c \<Rightarrow> c | None \<Rightarrow> []) [0..<0 + n]))"
    using assms by (intro reassemble_present) auto
  then show ?thesis by (simp add: chunksInOrder_def)
qed

lemma reassemble_missing:
  "reassemble chunks i k acc = Inl j \<Longrightarrow> i \<le> j \<and> j < i + k \<and> chunks j = None
     \<and> (\<forall>l. i \<le> l \<and> l < j \<longrightarrow> chunks l \<noteq> None)"
proof (induction k arbitrary: i acc)
  case 0
  then show ?case by simp
next
  case (Suc k)
  show ?case
  proof (cases "chunks i")
    case None
    with Suc.prems show ?thesis by auto
  next
    case (Some c)
    with Suc.prems have "reassemble chunks (Suc i) k (acc @ c) = Inl j" by simp
    from Suc.IH [OF this] have ih: "Suc i \<le> j" "j < Suc i + k" "chunks j = None"
      "\<forall>l. Suc i \<le> l \<and> l < j \<longrightarrow> chunks l \<noteq> None" by simp_all
    have "chunks l \<noteq> None" if "i \<le> l" "l < j" for l
    proof (cases "l = i")
      case True
      then show ?thesis using Some by simp
    next
      case False
      with that have "Suc i \<le> l" by simp
      with ih(4) that(2) show ?thesis by blast
    qed
    with ih(1-3) show ?thesis by simp
  qed
qed

subsection \<open>Digests on the wire\<close>

lemma wellFormedUTF8_ascii: "\<forall>b \<in> set d. b \<le> 0x7F \<Longrightarrow> wellFormedUTF8 d"
  by (induction d rule: wellFormedUTF8.induct) auto

lemma byte_of_char: "unat (of_nat (of_char c) :: byte) = of_char c"
proof -
  have "(of_char c :: nat) mod 256 = of_char c" by (rule of_char_mod_256)
  then show ?thesis by (simp add: unat_of_nat)
qed

lemma decodeUTF8_ascii:
  assumes "\<forall>c \<in> set s. (of_char c :: nat) < 128"
  shows "decodeUTF8 (utf8 s) = Some s"
proof -
  have "b \<le> 0x7F" if "b \<in> set (utf8 s)" for b
  proof -
    from that obtain c where c: "c \<in> set s" and b: "b = of_nat (of_char c)"
      by (auto simp: utf8_def)
    have "unat b = of_char c" by (simp add: b byte_of_char)
    with assms c have "unat b \<le> unat (0x7F :: byte)" by fastforce
    then show ?thesis by (simp only: word_le_nat_alt)
  qed
  then have "wellFormedUTF8 (utf8 s)" by (intro wellFormedUTF8_ascii) blast
  moreover have "map (\<lambda>b. char_of (unat b)) (utf8 s) = s"
    by (simp add: utf8_def byte_of_char comp_def)
  ultimately show ?thesis by (simp add: decodeUTF8_def)
qed

lemma hexDigit_ascii: "(of_char (hexDigit n) :: nat) < 128"
proof -
  have "n mod 16 < length ''0123456789abcdef''" by simp
  then have "hexDigit n \<in> set ''0123456789abcdef''"
    unfolding hexDigit_def by (rule nth_mem)
  then show ?thesis by auto
qed

lemma hexString_ascii: "\<forall>c \<in> set (hexString d). (of_char c :: nat) < 128"
  by (auto simp: hexString_def hexDigit_ascii)

lemma decode_hexString: "decodeUTF8 (utf8 (hexString d)) = Some (hexString d)"
  by (rule decodeUTF8_ascii) (rule hexString_ascii)

subsection \<open>The state after the chunk frames\<close>

lemma sentChunk_inj:
  assumes "i < 2 ^ 32" and "j < 2 ^ 32" and "sentChunk d i = sentChunk d j"
  shows "i = j"
proof -
  from assms(3) have "bigEndian4 i = bigEndian4 j"
    by (simp add: sentChunk_def chunkFrame_def bigEndian4_def)
  then have "fromBigEndian (bigEndian4 i) = fromBigEndian (bigEndian4 j)" by simp
  with assms(1,2) show ?thesis by (simp add: fromBigEndian_bigEndian4)
qed

lemma receive_sentChunk:
  assumes "j < 2 ^ 32" and "j * chunkSize < length d"
  shows "receivingChunks (fst (handleIncomingData jd we ps m (fst (sentChunk d j)) (snd (sentChunk d j))))
           = (receivingChunks m)(j \<mapsto> chunkAt d j)"
    and "receivingMetadata (fst (handleIncomingData jd we ps m (fst (sentChunk d j)) (snd (sentChunk d j))))
           = receivingMetadata m"
  using assms
  by (simp_all add: sentChunk_def handleIncomingData_chunkFrame handleFileChunk_chunkFrame
        chunkAt_nonempty)

lemma receive_chunks:
  assumes "N \<le> 2 ^ 32" and "\<forall>j<N. j * chunkSize < length d"
  shows "set fs \<subseteq> sentChunk d ` {..<N} \<Longrightarrow>
     receivingMetadata (fst (receiveAll jd we ps m fs)) = receivingMetadata m
     \<and> (\<forall>j<N. receivingChunks (fst (receiveAll jd we ps m fs)) j =
            (if sentChunk d j \<in> set fs then Some (chunkAt d j) else receivingChunks m j))"
proof (induction fs rule: rev_induct)
  case Nil
  then show ?case by simp
next
  case (snoc f fs)
  let ?m1 = "fst (receiveAll jd we ps m fs)"
  from snoc.prems obtain i where i: "i < N" and f: "f = sentChunk d i" by auto
  from snoc.prems have "set fs \<subseteq> sentChunk d ` {..<N}" by simp
  from snoc.IH [OF this] have md: "receivingMetadata ?m1 = receivingMetadata m"
    and ch: "\<forall>j<N. receivingChunks ?m1 j =
            (if sentChunk d j \<in> set fs then Some (chunkAt d j) else receivingChunks m j)"
    by simp_all
  have i32: "i < 2 ^ 32" using i assms(1) by linarith
  have ilen: "i * chunkSize < length d" using i assms(2) by blast
  have last: "fst (receiveAll jd we ps m (fs @ [sentChunk d i])) =
      fst (handleIncomingData jd we ps ?m1 (fst (sentChunk d i)) (snd (sentChunk d i)))"
    by (simp only: receiveAll_append receiveAll_single)
  have "receivingChunks (fst (receiveAll jd we ps m (fs @ [sentChunk d i]))) j =
          (if sentChunk d j \<in> set (fs @ [sentChunk d i]) then Some (chunkAt d j)
           else receivingChunks m j)"
    if j: "j < N" for j
  proof (cases "j = i")
    case True
    then show ?thesis
      by (simp add: last receive_sentChunk(1) [OF i32 ilen])
  next
    case False
    have "j < 2 ^ 32" using j assms(1) by linarith
    with False i32 have "sentChunk d j \<noteq> sentChunk d i"
      using sentChunk_inj by blast
    then show ?thesis
      using False j ch by (simp add: last receive_sentChunk(1) [OF i32 ilen])
  qed
  then show ?case
    unfolding f by (simp add: last receive_sentChunk(2) [OF i32 ilen] md)
qed

subsection \<open>FILE_COMPLETE\<close>

lemma completeFrame_dispatch:
  "handleIncomingData jd we ps m (3 # digest) channelId = handleFileComplete m we (3 # digest)"
  by (simp add: handleIncomingData_def fromRawValue_def)

lemma handleFileComplete_all_present:
  assumes "receivingMetadata m = Some metadata" and "0 \<le> totalChunks metadata"
    and "\<forall>i<nat (totalChunks metadata). receivingChunks m i \<noteq> None"
    and "expected = (if digest \<noteq> [] then (case decodeUTF8 digest of Some s \<Rightarrow> s | None \<Rightarrow> '''') else '''')"
    and "fileData = concat (chunksInOrder m (nat (totalChunks metadata)))"
  shows "handleFileComplete m we (rawValue fileComplete # digest) =
     (cleanup m,
      if expected \<noteq> '''' \<and> hexString (SHA256 fileData) \<noteq> expected
      then sendFailedMessage (transferId metadata) ''Checksum mismatch''
           @ [DidFailTransfer (transferId metadata) ''Checksum mismatch'']
      else WriteTo (fileName metadata) fileData
           # (case we of
                None \<Rightarrow> sendSuccessMessage (transferId metadata)
                        @ [DidCompleteTransfer (transferId metadata) (fileName metadata)]
              | Some description \<Rightarrow>
                  sendFailedMessage (transferId metadata) description
                  @ [DidFailTransfer (transferId metadata) description]))"
proof -
  have sub: "subdata (rawValue fileComplete # digest) 1 (length (rawValue fileComplete # digest)) = digest"
    by (simp add: subdata_def)
  have len: "(length (rawValue fileComplete # digest) > 1) = (digest \<noteq> [])"
    by auto
  have re: "reassemble (receivingChunks m) 0 (nat (totalChunks metadata)) [] = Inr fileData"
    unfolding assms(5) by (rule reassemble_chunksInOrder) (rule assms(3))
  show ?thesis
    unfolding handleFileComplete_def
    using assms(2)
    by (simp only: assms(1) option.case sub len re sum.case Let_def assms(4) [symmetric]) simp
qed

subsection \<open>Duplicate chunk frames\<close>

text \<open>
  C4 (as stated) fails: the receiver gets two chunk frames with index 0, the first with
  payload \<open>[1]\<close>, the second with payload \<open>[2]\<close>. The payload stored for index 0 is
  \<open>[2]\<close>, the one of the second frame.
\<close>

theorem duplicate_chunk_first_wins_counterexample:
  "receivingChunks (fst (receiveAll noJsonDecode None False idle
       [(chunkFrame 0 [1], 0), (chunkFrame 0 [2], 0)])) 0 = Some [2]
   \<and> receivingChunks (fst (receiveAll noJsonDecode None False idle
       [(chunkFrame 0 [1], 0), (chunkFrame 0 [2], 0)])) 0 \<noteq> Some [1]"
proof -
  have "receivingChunks (fst (receiveAll noJsonDecode None False idle
       ([(chunkFrame 0 [1], 0)] @ [(chunkFrame 0 [2], 0)]))) 0 = Some [2]"
    by (simp only: receiveAll_append receiveAll_single fst_conv snd_conv
          handleIncomingData_chunkFrame)
       (simp add: handleFileChunk_chunkFrame)
  then show ?thesis by simp
qed

text \<open>Chunk frames that carry another index leave the stored payload alone.\<close>

lemma chunkIndex_chunkFrame:
  "i < 2 ^ 32 \<Longrightarrow> p \<noteq> [] \<Longrightarrow> chunkIndex (chunkFrame i p) = Some i"
  by (simp add: chunkIndex_def chunkFrame_parts fromBigEndian_bigEndian4)

lemma isChunkFrame_chunkFrame: "isChunkFrame (chunkFrame i p)"
  by (simp add: isChunkFrame_def chunkFrame_def)

lemma chunk_of_other_index:
  assumes "isChunkFrame d" and "chunkIndex d \<noteq> Some index"
  shows "receivingChunks (fst (handleIncomingData jd we ps m d channelId)) index
           = receivingChunks m index"
proof -
  from assms(1) obtain rest where d: "d = 2 # rest"
    by (auto simp: isChunkFrame_def split: list.splits)
  have "handleIncomingData jd we ps m d channelId = handleFileChunk m d channelId"
    by (simp add: d handleIncomingData_def fromRawValue_def)
  then show ?thesis
    using assms(2) by (simp add: handleFileChunk_def chunkIndex_def Let_def split: if_splits)
qed

lemma later_chunks_keep:
  "list_all (\<lambda>g. isChunkFrame (fst g) \<and> chunkIndex (fst g) \<noteq> Some index) gs \<Longrightarrow>
     receivingChunks (fst (receiveAll jd we ps m gs)) index = receivingChunks m index"
proof (induction gs arbitrary: m)
  case Nil
  then show ?case by simp
next
  case (Cons g gs)
  then have g: "isChunkFrame (fst g)" "chunkIndex (fst g) \<noteq> Some index"
    and rest: "list_all (\<lambda>g. isChunkFrame (fst g) \<and> chunkIndex (fst g) \<noteq> Some index) gs"
    by simp_all
  have "receivingChunks (fst (receiveAll jd we ps m (g # gs))) index =
      receivingChunks (fst (handleIncomingData jd we ps m (fst g) (snd g))) index"
    by (simp only: receiveAll_Cons_fst Cons.IH [OF rest])
  then show ?case by (simp only: chunk_of_other_index [OF g])
qed

lemma chunksInOrder_nth:
  "i < n \<Longrightarrow> receivingChunks m i = Some p \<Longrightarrow>
     length (chunksInOrder m n) = n \<and> chunksInOrder m n ! i = p"
  by (simp add: chunksInOrder_def)

text \<open>
  C4 (as amended). Whatever frames came before, and whatever they stored, after a
  \<open>FILE_CHUNK\<close> frame with an index and at least one payload byte, followed by any
  number of chunk frames that carry other indices, the payload stored for that index is
  the one of this frame: of several frames with the same index the last one wins, every
  later duplicate replaces what was stored. This payload is the one used at
  reassembly: when the chunks \<open>0 \<dots> N-1\<close> are all present, the loop of
  \<open>handleFileComplete\<close> yields the concatenation of the stored chunks in index order,
  whose entry at the index is this payload, and these are the bytes written.
\<close>

theorem duplicate_chunk_last_wins:
  assumes "index < 2 ^ 32" and "p \<noteq> []"
    and "list_all (\<lambda>g. isChunkFrame (fst g) \<and> chunkIndex (fst g) \<noteq> Some index) gs"
    and "m' = fst (receiveAll jd we ps m (fs @ [(chunkFrame index p, channelId)] @ gs))"
  shows "receivingChunks m' index = Some p
       \<and> (receivingMetadata m' = Some metadata \<and> 0 \<le> totalChunks metadata
            \<and> index < nat (totalChunks metadata)
            \<and> (\<forall>i<nat (totalChunks metadata). receivingChunks m' i \<noteq> None)
          \<longrightarrow> length (chunksInOrder m' (nat (totalChunks metadata))) = nat (totalChunks metadata)
            \<and> chunksInOrder m' (nat (totalChunks metadata)) ! index = p
            \<and> reassemble (receivingChunks m') 0 (nat (totalChunks metadata)) []
                = Inr (concat (chunksInOrder m' (nat (totalChunks metadata))))
            \<and> handleIncomingData jd None ps m' [rawValue fileComplete] channelId' =
                (cleanup m',
                 [WriteTo (fileName metadata)
                    (concat (chunksInOrder m' (nat (totalChunks metadata)))),
                  SendData 0 (rawValue transferSuccess # utf8 (transferId metadata)),
                  DidCompleteTransfer (transferId metadata) (fileName metadata)]))"
proof -
  let ?m1 = "fst (receiveAll jd we ps m fs)"
  let ?m2 = "fst (handleIncomingData jd we ps ?m1 (chunkFrame index p) channelId)"
  have split: "m' = fst (receiveAll jd we ps ?m2 gs)"
    by (simp only: assms(4) receiveAll_append receiveAll_single fst_conv snd_conv)
  have "receivingChunks ?m2 index = Some p"
    using assms(1,2)
    by (simp add: handleIncomingData_chunkFrame handleFileChunk_chunkFrame)
  then have stored: "receivingChunks m' index = Some p"
    by (simp only: split later_chunks_keep [OF assms(3)])
  have used: "length (chunksInOrder m' (nat (totalChunks metadata))) = nat (totalChunks metadata)
            \<and> chunksInOrder m' (nat (totalChunks metadata)) ! index = p
            \<and> reassemble (receivingChunks m') 0 (nat (totalChunks metadata)) []
                = Inr (concat (chunksInOrder m' (nat (totalChunks metadata))))
            \<and> handleIncomingData jd None ps m' [rawValue fileComplete] channelId' =
                (cleanup m',
                 [WriteTo (fileName metadata)
                    (concat (chunksInOrder m' (nat (totalChunks metadata)))),
                  SendData 0 (rawValue transferSuccess # utf8 (transferId metadata)),
                  DidCompleteTransfer (transferId metadata) (fileName metadata)])"
    if md: "receivingMetadata m' = Some metadata" and nn: "0 \<le> totalChunks metadata"
      and lt: "index < nat (totalChunks metadata)"
      and present: "\<forall>i<nat (totalChunks metadata). receivingChunks m' i \<noteq> None"
  proof -
    note nth = chunksInOrder_nth [OF lt stored]
    have re: "reassemble (receivingChunks m') 0 (nat (totalChunks metadata)) []
                = Inr (concat (chunksInOrder m' (nat (totalChunks metadata))))"
      by (rule reassemble_chunksInOrder) (rule present)
    have "handleFileComplete m' None (rawValue fileComplete # []) =
       (cleanup m',
        WriteTo (fileName metadata) (concat (chunksInOrder m' (nat (totalChunks metadata))))
        # sendSuccessMessage (transferId metadata)
        @ [DidCompleteTransfer (transferId metadata) (fileName metadata)])"
      using handleFileComplete_all_present
              [OF md nn present, where digest = "[]" and expected = "''''" and we = None
                 and fileData = "concat (chunksInOrder m' (nat (totalChunks metadata)))"]
      by simp
    then have "handleIncomingData jd None ps m' [rawValue fileComplete] channelId' =
                (cleanup m',
                 [WriteTo (fileName metadata)
                    (concat (chunksInOrder m' (nat (totalChunks metadata)))),
                  SendData 0 (rawValue transferSuccess # utf8 (transferId metadata)),
                  DidCompleteTransfer (transferId metadata) (fileName metadata)])"
      by (simp add: completeFrame_dispatch sendSuccessMessage_def controlFrame_def)
    with nth re show ?thesis by blast
  qed
  from stored used show ?thesis by blast
qed

lemma receiver4_frames:
  "receivingMetadata (fst (receiveAll noJsonDecode None False receiver4
       ([(chunkFrame 0 [1], 0)] @ [(chunkFrame 0 [2], 0)] @ [(chunkFrame 1 [3], 1)]))) = Some metadata4"
  "receivingChunks (fst (receiveAll noJsonDecode None False receiver4
       ([(chunkFrame 0 [1], 0)] @ [(chunkFrame 0 [2], 0)] @ [(chunkFrame 1 [3], 1)])))
     = [0 \<mapsto> [2], 1 \<mapsto> [3]]"
  by (simp_all add: handleIncomingData_chunkFrame handleFileChunk_chunkFrame receiver4_def idle_def)

theorem duplicate_chunk_last_wins_witness:
  "(0 :: nat) < 2 ^ 32 \<and> [2 :: byte] \<noteq> []
   \<and> list_all (\<lambda>g. isChunkFrame (fst g) \<and> chunkIndex (fst g) \<noteq> Some 0) [(chunkFrame 1 [3], 1)]
   \<and> receivingChunks (fst (receiveAll noJsonDecode None False receiver4
         ([(chunkFrame 0 [1], 0)] @ [(chunkFrame 0 [2], 0)] @ [(chunkFrame 1 [3], 1)]))) 0 = Some [2]
   \<and> receivingChunks (fst (receiveAll noJsonDecode None False receiver4
         ([(chunkFrame 0 [1], 0)] @ [(chunkFrame 0 [2], 0)] @ [(chunkFrame 1 [3], 1)]))) 1 = Some [3]
   \<and> handleIncomingData noJsonDecode None False
        (fst (receiveAll noJsonDecode None False receiver4
         ([(chunkFrame 0 [1], 0)] @ [(chunkFrame 0 [2], 0)] @ [(chunkFrame 1 [3], 1)])))
        [rawValue fileComplete] 0
       = (idle, [WriteTo ''k.bin'' [2, 3], SendData 0 (5 # utf8 ''t4''),
                 DidCompleteTransfer ''t4'' ''k.bin''])"
proof -
  define m' where "m' = fst (receiveAll noJsonDecode None False receiver4
         ([(chunkFrame 0 [1], 0)] @ [(chunkFrame 0 [2], 0)] @ [(chunkFrame 1 [3], 1)]))"
  have 1: "(0 :: nat) < 2 ^ 32" by simp
  have 2: "[2 :: byte] \<noteq> []" by simp
  have 3: "list_all (\<lambda>g. isChunkFrame (fst g) \<and> chunkIndex (fst g) \<noteq> Some 0) [(chunkFrame 1 [3], 1)]"
    by (simp add: isChunkFrame_chunkFrame chunkIndex_chunkFrame)
  have md: "receivingMetadata m' = Some metadata4"
    and ch: "receivingChunks m' = [0 \<mapsto> [2], 1 \<mapsto> [3]]"
    unfolding m'_def by (rule receiver4_frames)+
  have total: "nat (totalChunks metadata4) = 2" "0 \<le> totalChunks metadata4"
    by (simp_all add: metadata4_def)
  have present: "\<forall>i<nat (totalChunks metadata4). receivingChunks m' i \<noteq> None"
    by (simp add: total ch)
  have order: "concat (chunksInOrder m' 2) = [2, 3]"
    by (simp add: ch chunksInOrder_def upt_rec numeral_2_eq_2)
  have clean: "cleanup m' = idle"
    by (simp add: cleanup_def idle_def)
  from duplicate_chunk_last_wins [OF 1 2 3 m'_def, of metadata4 0] md total present
  have "receivingChunks m' 0 = Some [2]
      \<and> handleIncomingData noJsonDecode None False m' [rawValue fileComplete] 0 =
          (idle, [WriteTo ''k.bin'' [2, 3], SendData 0 (5 # utf8 ''t4''),
                  DidCompleteTransfer ''t4'' ''k.bin''])"
    by (simp add: total order clean) (simp add: metadata4_def)
  moreover have "receivingChunks m' 1 = Some [3]" by (simp add: ch)
  ultimately show ?thesis using 1 2 3 unfolding m'_def by blast
qed

subsection \<open>FILE_COMPLETE and the digest\<close>

text \<open>
  C10. A \<open>FILE_COMPLETE\<close> frame that consists of the type byte only: when the chunks
  \<open>0 \<dots> N-1\<close> are all present and the file is written, the receiver writes their
  concatenation and answers \<open>TRANSFER_SUCCESS\<close>. The result does not mention the
  digest of the payload or the checksum of the metadata: it is the same for every
  content of the chunks.
\<close>

theorem handleFileComplete_without_digest:
  assumes "receivingMetadata m = Some metadata" and "0 \<le> totalChunks metadata"
    and "\<forall>i<nat (totalChunks metadata). receivingChunks m i \<noteq> None"
  shows "handleIncomingData jd None ps m [rawValue fileComplete] channelId =
     (cleanup m,
      [WriteTo (fileName metadata) (concat (chunksInOrder m (nat (totalChunks metadata)))),
       SendData 0 (rawValue transferSuccess # utf8 (transferId metadata)),
       DidCompleteTransfer (transferId metadata) (fileName metadata)])"
proof -
  have "handleFileComplete m None (rawValue fileComplete # []) =
     (cleanup m,
      WriteTo (fileName metadata) (concat (chunksInOrder m (nat (totalChunks metadata))))
      # sendSuccessMessage (transferId metadata)
      @ [DidCompleteTransfer (transferId metadata) (fileName metadata)])"
    using handleFileComplete_all_present
            [OF assms, where digest = "[]" and expected = "''''" and we = None
               and fileData = "concat (chunksInOrder m (nat (totalChunks metadata)))"]
    by simp
  then show ?thesis
    by (simp add: completeFrame_dispatch sendSuccessMessage_def controlFrame_def)
qed

theorem handleFileComplete_without_digest_witness:
  "receivingMetadata receiver1 = Some metadata1 \<and> 0 \<le> totalChunks metadata1
   \<and> list_all (\<lambda>i. receivingChunks receiver1 i \<noteq> None) [0..<nat (totalChunks metadata1)]
   \<and> checksum metadata1 = ''00''
   \<and> handleIncomingData noJsonDecode None False receiver1 [rawValue fileComplete] 0 =
       (idle, [WriteTo ''g.bin'' [9, 9], SendData 0 (5 # utf8 ''t2''),
               DidCompleteTransfer ''t2'' ''g.bin''])"
proof -
  have 1: "receivingMetadata receiver1 = Some metadata1" by (simp add: receiver1_def)
  have 2: "0 \<le> totalChunks metadata1" by (simp add: metadata1_def)
  have 3: "\<forall>i<nat (totalChunks metadata1). receivingChunks receiver1 i \<noteq> None"
    by (simp add: metadata1_def receiver1_def)
  have 4: "cleanup receiver1 = idle" by (simp add: cleanup_def receiver1_def idle_def)
  have 5: "concat (chunksInOrder receiver1 (nat (totalChunks metadata1))) = [9, 9]"
    by (simp add: chunksInOrder_def metadata1_def receiver1_def)
  from handleFileComplete_without_digest [OF 1 2 3, of noJsonDecode False 0]
  have "handleIncomingData noJsonDecode None False receiver1 [rawValue fileComplete] 0 =
       (idle, [WriteTo ''g.bin'' [9, 9], SendData 0 (5 # utf8 ''t2''),
               DidCompleteTransfer ''t2'' ''g.bin''])"
    by (simp add: 4 5) (simp add: metadata1_def)
  with 1 2 3 show ?thesis by (simp add: metadata1_def list_all_iff)
qed

text \<open>The digest of the bytes 9 9 7, computed from the definition.\<close>

lemma sha256_997:
  "SHA256 [9, 9, 7] = [117, 167, 32, 49, 89, 72, 101, 242, 179, 229, 119, 253, 210, 154, 38, 226,
                      123, 215, 30, 226, 205, 43, 143, 223, 122, 131, 17, 41, 212, 233, 250, 211]"
  by code_simp

lemma digest_997: "hexString (SHA256 [9, 9, 7]) = digestLower"
  by (simp add: sha256_997 hexString_def hexDigit_def digestLower_def)

lemma digestUpper_lowercase: "map lowercase digestUpper = digestLower"
  by (simp add: digestUpper_def digestLower_def lowercase_def)

lemma decode_digestUpper: "decodeUTF8 (utf8 digestUpper) = Some digestUpper"
  by (rule decodeUTF8_ascii) (simp add: digestUpper_def)

lemma decode_digestLower: "decodeUTF8 (utf8 digestLower) = Some digestLower"
  by (rule decodeUTF8_ascii) (simp add: digestLower_def)

lemma receiver2_facts:
  "receivingMetadata receiver2 = Some metadata2"
  "0 \<le> totalChunks metadata2"
  "\<forall>i<nat (totalChunks metadata2). receivingChunks receiver2 i \<noteq> None"
  "[9, 9, 7] = concat (chunksInOrder receiver2 (nat (totalChunks metadata2)))"
  "cleanup receiver2 = idle"
  by (simp_all add: receiver2_def metadata2_def chunksInOrder_def cleanup_def idle_def
        upt_rec numeral_2_eq_2 less_Suc_eq)

text \<open>
  C3 (as amended). On \<open>FILE_COMPLETE\<close>, when the chunks \<open>0 \<dots> N-1\<close> are all present and
  the bytes after the type byte decode to a non-empty digest text, the receiver
  concatenates the chunks in index order, computes SHA-256 of the result and compares
  its lower-case hexadecimal text with the received text for equality, character by
  character. When they differ it emits \<open>TRANSFER_FAILED\<close> with the reason
  \<open>Checksum mismatch\<close>; when they are equal it writes the file and emits
  \<open>TRANSFER_SUCCESS\<close> if the write succeeds, \<open>TRANSFER_FAILED\<close> with the description
  of the write error otherwise.
\<close>

theorem handleFileComplete_compares_exactly:
  assumes "receivingMetadata m = Some metadata" and "0 \<le> totalChunks metadata"
    and "\<forall>i<nat (totalChunks metadata). receivingChunks m i \<noteq> None"
    and "decodeUTF8 digest = Some expected" and "expected \<noteq> ''''"
    and "fileData = concat (chunksInOrder m (nat (totalChunks metadata)))"
  shows "handleIncomingData jd we ps m (rawValue fileComplete # digest) channelId =
     (cleanup m,
      if hexString (SHA256 fileData) = expected
      then WriteTo (fileName metadata) fileData
           # (case we of
                None \<Rightarrow> [SendData 0 (rawValue transferSuccess # utf8 (transferId metadata)),
                         DidCompleteTransfer (transferId metadata) (fileName metadata)]
              | Some description \<Rightarrow>
                  [SendData 0 (rawValue transferFailed # utf8 description),
                   DidFailTransfer (transferId metadata) description])
      else [SendData 0 (rawValue transferFailed # utf8 ''Checksum mismatch''),
            DidFailTransfer (transferId metadata) ''Checksum mismatch''])"
proof -
  have nonempty: "digest \<noteq> []"
    using assms(4,5) by (auto simp: decodeUTF8_def)
  have expected: "expected = (if digest \<noteq> [] then (case decodeUTF8 digest of Some s \<Rightarrow> s | None \<Rightarrow> '''') else '''')"
    using assms(4) nonempty by simp
  show ?thesis
    using handleFileComplete_all_present [OF assms(1,2,3) expected assms(6), of we] assms(5)
    by (simp add: completeFrame_dispatch sendSuccessMessage_def sendFailedMessage_def
          controlFrame_def split: option.split)
qed

theorem handleFileComplete_compares_exactly_witness:
  "receivingMetadata receiver2 = Some metadata2 \<and> totalChunks metadata2 = 2
   \<and> receivingChunks receiver2 0 = Some [9, 9] \<and> receivingChunks receiver2 1 = Some [7]
   \<and> decodeUTF8 (utf8 digestLower) = Some digestLower \<and> digestLower \<noteq> ''''
   \<and> hexString (SHA256 [9, 9, 7]) = digestLower
   \<and> handleIncomingData noJsonDecode None False receiver2
         (rawValue fileComplete # utf8 digestLower) 0 =
       (idle, [WriteTo ''f.bin'' [9, 9, 7], SendData 0 (5 # utf8 ''t1''),
               DidCompleteTransfer ''t1'' ''f.bin''])
   \<and> handleIncomingData noJsonDecode None False receiver2
         (rawValue fileComplete # utf8 ''00'') 0 =
       (idle, [SendData 0 (6 # utf8 ''Checksum mismatch''),
               DidFailTransfer ''t1'' ''Checksum mismatch''])"
proof -
  have 5: "digestLower \<noteq> ''''" by (simp add: digestLower_def)
  have d0: "decodeUTF8 (utf8 ''00'') = Some ''00''" by (rule decodeUTF8_ascii) simp
  have n0: "''00'' \<noteq> ''''" by simp
  have ne: "digestLower \<noteq> ''00''" by (simp add: digestLower_def)
  from handleFileComplete_compares_exactly
         [OF receiver2_facts(1,2,3) decode_digestLower 5 receiver2_facts(4),
          of noJsonDecode None False 0]
  have ok: "handleIncomingData noJsonDecode None False receiver2
         (rawValue fileComplete # utf8 digestLower) 0 =
       (idle, [WriteTo ''f.bin'' [9, 9, 7], SendData 0 (5 # utf8 ''t1''),
               DidCompleteTransfer ''t1'' ''f.bin''])"
    by (simp add: digest_997 receiver2_facts(5)) (simp add: metadata2_def)
  from handleFileComplete_compares_exactly
         [OF receiver2_facts(1,2,3) d0 n0 receiver2_facts(4), of noJsonDecode None False 0] ne
  have bad: "handleIncomingData noJsonDecode None False receiver2
         (rawValue fileComplete # utf8 ''00'') 0 =
       (idle, [SendData 0 (6 # utf8 ''Checksum mismatch''),
               DidFailTransfer ''t1'' ''Checksum mismatch''])"
    by (simp add: digest_997 receiver2_facts(5)) (simp add: metadata2_def)
  have chunks: "totalChunks metadata2 = 2" "receivingChunks receiver2 0 = Some [9, 9]"
    "receivingChunks receiver2 1 = Some [7]"
    by (simp_all add: metadata2_def receiver2_def)
  from ok bad chunks receiver2_facts(1) decode_digestLower 5 digest_997 show ?thesis
    by blast
qed

text \<open>
  C3 (as stated) fails: the receiver holds both chunks of a file, 9 9 and 7, and gets
  \<open>FILE_COMPLETE\<close> with the digest of the bytes 9 9 7 in upper case. Without regard to
  case the received digest is the computed one, and yet the receiver emits
  \<open>TRANSFER_FAILED\<close> with \<open>Checksum mismatch\<close>.
\<close>

theorem handleFileComplete_case_sensitive_counterexample:
  "receivingChunks receiver2 0 = Some [9, 9] \<and> receivingChunks receiver2 1 = Some [7]
   \<and> map lowercase digestUpper = hexString (SHA256 [9, 9, 7])
   \<and> handleIncomingData noJsonDecode None False receiver2
         (rawValue fileComplete # utf8 digestUpper) 0 =
       (idle, [SendData 0 (6 # utf8 ''Checksum mismatch''),
               DidFailTransfer ''t1'' ''Checksum mismatch''])"
proof -
  have 8: "digestLower \<noteq> digestUpper"
    by (simp add: digestLower_def digestUpper_def)
  have ne: "utf8 digestUpper \<noteq> []"
    by (simp add: utf8_def digestUpper_def)
  have e: "digestUpper =
      (if utf8 digestUpper \<noteq> []
       then (case decodeUTF8 (utf8 digestUpper) of Some s \<Rightarrow> s | None \<Rightarrow> '''')
       else '''')"
    by (simp add: ne decode_digestUpper)
  have 5: "digestUpper \<noteq> ''''" by (simp add: digestUpper_def)
  have all: "handleFileComplete receiver2 None (rawValue fileComplete # utf8 digestUpper) =
      (cleanup receiver2,
       sendFailedMessage (transferId metadata2) ''Checksum mismatch''
       @ [DidFailTransfer (transferId metadata2) ''Checksum mismatch''])"
    using handleFileComplete_all_present [OF receiver2_facts(1,2,3) e receiver2_facts(4), of None] 5 8
    by (simp add: digest_997)
  have "handleIncomingData noJsonDecode None False receiver2
         (rawValue fileComplete # utf8 digestUpper) 0 =
       (idle, [SendData 0 (6 # utf8 ''Checksum mismatch''),
               DidFailTransfer ''t1'' ''Checksum mismatch''])"
    using all
    by (simp add: completeFrame_dispatch receiver2_facts(5) sendFailedMessage_def controlFrame_def)
       (simp add: metadata2_def)
  moreover have "receivingChunks receiver2 0 = Some [9, 9]" "receivingChunks receiver2 1 = Some [7]"
    by (simp_all add: receiver2_def)
  ultimately show ?thesis by (simp add: digestUpper_lowercase digest_997)
qed

subsection \<open>A whole transfer\<close>

lemma sendFile_state:
  assumes "sendFile je m0 tid name ext (Some d) = Inr (ms, es0)"
  shows "sendingFileData ms = Some d" and "sendingMetadata ms = Some (metadataFor tid name ext d)"
    and "sendingChunkIndex ms = 0" and "\<not> sendingPaused ms"
  using assms by (auto simp: sendFile_def Let_def)

lemma totalChunks_metadataFor:
  "totalChunks (metadataFor tid name ext d) = int (nat \<lceil>real (length d) / real chunkSize\<rceil>)"
proof -
  have "(0 :: real) \<le> real (length d) / real chunkSize" by simp
  then have "\<lceil>0 :: real\<rceil> \<le> \<lceil>real (length d) / real chunkSize\<rceil>" by (rule ceiling_mono)
  then show ?thesis by (simp add: metadataFor_def)
qed

lemma totalChunks_bound:
  assumes "length d \<le> 2 ^ 32 * chunkSize"
  shows "nat \<lceil>real (length d) / real chunkSize\<rceil> \<le> 2 ^ 32"
proof -
  have "\<not> (2 ^ 32 :: nat) * chunkSize < length d" using assms by simp
  then have "\<not> int (2 ^ 32) < \<lceil>real (length d) / real chunkSize\<rceil>"
    using below_totalChunks [of "2 ^ 32" "length d"] by blast
  then show ?thesis by linarith
qed

lemma payload_sentChunk: "payload (sentChunk d j) = chunkAt d j"
  by (simp add: payload_def sentChunk_def chunkFrame_parts)

text \<open>
  C2. A sender reads a file \<open>d\<close> (of at most \<open>2^32\<close> chunks, the range of the
  index on the wire) and, never paused, hands its frames to the transport: chunk frames
  and, last, \<open>FILE_COMPLETE\<close>. There are \<open>\<lceil>size / chunkSize\<rceil>\<close> chunk frames, each
  with a payload of at most \<open>chunkSize\<close> bytes, and their payloads in the order sent
  concatenate to \<open>d\<close>. A receiver that knows the sender's metadata and gets every chunk
  frame as sent, in any order and any number of times, reassembles \<open>d\<close> on
  \<open>FILE_COMPLETE\<close>: it writes \<open>d\<close> and, the write succeeding, answers
  \<open>TRANSFER_SUCCESS\<close>. The declared checksum is the SHA-256 of these bytes and the
  declared size is their length.
\<close>

theorem chunked_transfer_roundtrip:
  assumes "sendFile jsonEncode m0 tid name ext (Some d) = Inr (ms, es0)"
    and "length d \<le> 2 ^ 32 * chunkSize"
    and "sent = sentFrames (snd (sendAll ms))"
    and "set delivered = set (butlast sent)"
    and "receivingMetadata mr = sendingMetadata ms"
  shows "length (butlast sent) = nat \<lceil>real (length d) / real chunkSize\<rceil>
       \<and> list_all (\<lambda>f. length (payload f) \<le> chunkSize) (butlast sent)
       \<and> concat (map payload (butlast sent)) = d
       \<and> snd (handleIncomingData jd None ps (fst (receiveAll jd we ps mr delivered))
                (fst (last sent)) (snd (last sent)))
           = [WriteTo name d, SendData 0 (rawValue transferSuccess # utf8 tid),
              DidCompleteTransfer tid name]
       \<and> (\<exists>metadata. receivingMetadata mr = Some metadata
             \<and> checksum metadata = hexString (SHA256 d) \<and> fileSize metadata = int (length d))"
proof -
  define N where "N = nat \<lceil>real (length d) / real chunkSize\<rceil>"
  define metadata where "metadata = metadataFor tid name ext d"
  note st = sendFile_state [OF assms(1)]
  have md: "sendingMetadata ms = Some metadata" using st(2) by (simp add: metadata_def)
  have total: "totalChunks metadata = int N"
    by (simp only: metadata_def N_def totalChunks_metadataFor)
  have N32: "N \<le> 2 ^ 32" unfolding N_def by (rule totalChunks_bound) (rule assms(2))
  have inside: "\<forall>j<N. j * chunkSize < length d"
  proof (intro allI impI)
    fix j assume "j < N"
    then have "int j < \<lceil>real (length d) / real chunkSize\<rceil>" by (simp add: N_def)
    then show "j * chunkSize < length d" by (simp only: below_totalChunks)
  qed
  have idx: "sendingChunkIndex ms \<le> N" using st(3) by simp
  have sent: "sent = map (sentChunk d) [0..<N] @ [(rawValue fileComplete # utf8 (checksum metadata), 0)]"
    using sendAll_frames [OF st(1) md st(4) total N32 inside idx] st(3)
    by (simp add: assms(3) sentChunk_def)
  have chunks: "butlast sent = map (sentChunk d) [0..<N]"
    and complete: "last sent = (rawValue fileComplete # utf8 (checksum metadata), 0)"
    by (simp_all add: sent butlast_append)
  have c1: "length (butlast sent) = N" by (simp add: chunks)
  have c2: "list_all (\<lambda>f. length (payload f) \<le> chunkSize) (butlast sent)"
    by (simp add: chunks list_all_iff payload_sentChunk chunkAt_length)
  have "map payload (butlast sent) = map (chunkAt d) [0..<N]"
    by (simp add: chunks payload_sentChunk comp_def)
  then have c3: "concat (map payload (butlast sent)) = d"
    by (simp only: N_def split_concat)
  define mr' where "mr' = fst (receiveAll jd we ps mr delivered)"
  have sub: "set delivered \<subseteq> sentChunk d ` {..<N}"
    by (auto simp: assms(4) chunks)
  note rc = receive_chunks [OF N32 inside sub, of jd we ps mr]
  have rmd: "receivingMetadata mr' = Some metadata"
    using rc assms(5) md by (simp add: mr'_def)
  have stored: "receivingChunks mr' j = Some (chunkAt d j)" if "j < N" for j
  proof -
    from that have "sentChunk d j \<in> set delivered" by (simp add: assms(4) chunks)
    with rc that show ?thesis by (simp add: mr'_def)
  qed
  have present: "\<forall>i<nat (totalChunks metadata). receivingChunks mr' i \<noteq> None"
    using stored by (simp add: total)
  have whole: "concat (map (chunkAt d) [0..<N]) = d"
    by (simp only: N_def split_concat)
  have "chunksInOrder mr' N = map (chunkAt d) [0..<N]"
    by (simp add: chunksInOrder_def stored)
  then have fileData: "d = concat (chunksInOrder mr' (nat (totalChunks metadata)))"
    by (simp add: total whole)
  have cs: "checksum metadata = hexString (SHA256 d)" "fileName metadata = name"
    "transferId metadata = tid" "fileSize metadata = int (length d)"
    by (simp_all add: metadata_def metadataFor_def)
  have expected: "hexString (SHA256 d) =
      (if utf8 (checksum metadata) \<noteq> []
       then (case decodeUTF8 (utf8 (checksum metadata)) of Some s \<Rightarrow> s | None \<Rightarrow> '''')
       else '''')"
  proof -
    have "(utf8 (hexString (SHA256 d)) = []) = (hexString (SHA256 d) = [])"
      by (simp add: utf8_def)
    then show ?thesis by (simp add: cs(1) decode_hexString)
  qed
  have "handleFileComplete mr' None (rawValue fileComplete # utf8 (checksum metadata)) =
      (cleanup mr', WriteTo name d # sendSuccessMessage tid @ [DidCompleteTransfer tid name])"
    using handleFileComplete_all_present [OF rmd _ present expected fileData, of None]
    by (simp add: total cs)
  then have c4: "snd (handleIncomingData jd None ps mr' (fst (last sent)) (snd (last sent)))
      = [WriteTo name d, SendData 0 (rawValue transferSuccess # utf8 tid),
         DidCompleteTransfer tid name]"
    by (simp add: complete completeFrame_dispatch sendSuccessMessage_def controlFrame_def)
  have c5: "\<exists>metadata. receivingMetadata mr = Some metadata
             \<and> checksum metadata = hexString (SHA256 d) \<and> fileSize metadata = int (length d)"
    using assms(5) md cs by simp
  from c1 c2 c3 c4 c5 show ?thesis by (simp add: N_def mr'_def)
qed

lemma file3_one_chunk: "totalChunks (metadataFor ''t3'' ''h.bin'' ''bin'' file3) = int 1"
proof -
  have "\<lceil>real (length file3) / real chunkSize\<rceil> = 1"
    by (simp add: file3_def chunkSize_def ceiling_eq_iff)
  then show ?thesis by (simp add: metadataFor_def)
qed

lemma sender3_frames:
  "sentFrames (snd (sendAll sender3)) =
     [sentChunk file3 0, (3 # utf8 (hexString (SHA256 file3)), 0)]"
proof -
  have 1: "sendingFileData sender3 = Some file3" by (simp add: sender3_def)
  have 2: "sendingMetadata sender3 = Some (metadataFor ''t3'' ''h.bin'' ''bin'' file3)"
    by (simp add: sender3_def)
  have 3: "\<not> sendingPaused sender3" by (simp add: sender3_def idle_def)
  have 4: "(1 :: nat) \<le> 2 ^ 32" by simp
  have 5: "\<forall>j<1. j * chunkSize < length file3" by (simp add: file3_def)
  have 6: "sendingChunkIndex sender3 \<le> 1" by (simp add: sender3_def idle_def)
  have 7: "sendingChunkIndex sender3 = 0" by (simp add: sender3_def idle_def)
  from sendAll_frames [OF 1 2 3 file3_one_chunk 4 5 6]
  show ?thesis by (simp add: 7 sentChunk_def metadataFor_def)
qed

theorem chunked_transfer_roundtrip_witness:
  "sendFile noJsonEncode idle ''t3'' ''h.bin'' ''bin'' (Some file3) = Inr (sender3, [])
   \<and> length file3 \<le> 2 ^ 32 * chunkSize
   \<and> sentFrames (snd (sendAll sender3)) =
       [sentChunk file3 0, (3 # utf8 (hexString (SHA256 file3)), 0)]
   \<and> receivingMetadata receiver3 = sendingMetadata sender3
   \<and> payload (sentChunk file3 0) = file3
   \<and> snd (handleIncomingData noJsonDecode None False
             (fst (receiveAll noJsonDecode None False receiver3 [sentChunk file3 0]))
             (3 # utf8 (hexString (SHA256 file3))) 0)
       = [WriteTo ''h.bin'' file3, SendData 0 (5 # utf8 ''t3''), DidCompleteTransfer ''t3'' ''h.bin'']"
proof -
  have 1: "sendFile noJsonEncode idle ''t3'' ''h.bin'' ''bin'' (Some file3) = Inr (sender3, [])"
    by (simp add: sendFile_def sendMetadata_def noJsonEncode_def sender3_def idle_def Let_def)
  have 2: "length file3 \<le> 2 ^ 32 * chunkSize" by (simp add: file3_def chunkSize_def)
  have 3: "[sentChunk file3 0, (3 # utf8 (hexString (SHA256 file3)), 0)]
             = sentFrames (snd (sendAll sender3))"
    by (simp only: sender3_frames)
  have 4: "set [sentChunk file3 0] =
      set (butlast [sentChunk file3 0, (3 # utf8 (hexString (SHA256 file3)), 0)])"
    by simp
  have 5: "receivingMetadata receiver3 = sendingMetadata sender3"
    by (simp add: receiver3_def sender3_def)
  from chunked_transfer_roundtrip [OF 1 2 3 4 5, of noJsonDecode False None]
  have "concat (map payload [sentChunk file3 0]) = file3
      \<and> snd (handleIncomingData noJsonDecode None False
             (fst (receiveAll noJsonDecode None False receiver3 [sentChunk file3 0]))
             (3 # utf8 (hexString (SHA256 file3))) 0)
       = [WriteTo ''h.bin'' file3, SendData 0 (5 # utf8 ''t3''), DidCompleteTransfer ''t3'' ''h.bin'']"
    by simp
  with 1 2 3 5 show ?thesis by simp
qed

end
